theory Spec2Isabelle
  imports Complex_Main "HOL-Library.Sublist" "HOL-Library.Product_Lexorder"
begin

section \<open>JavaScript values\<close>

text \<open>
  A JavaScript number is an IEEE 754 double: a finite value, one of the two infinities
  or NaN. A finite value is carried as the real it denotes. The sign of a zero is not
  modelled: \<open>-0\<close> and \<open>+0\<close> are both \<open>Num 0\<close>; they compare equal, and no divisor below
  is a negative zero.
\<close>

datatype jsnum = Num real | PosInf | NegInf | NaN

text \<open>
  Every arithmetic operation returns the exact result rounded to the nearest double,
  ties to the even significand. The doubles in the binade of \<open>x\<close> are the multiples of
  \<open>2\<close> to the power \<open>ulp_exp x\<close>: 52 below the exponent of \<open>x\<close>, and never below
  \<open>-1074\<close>, the exponent of the least subnormal. A rounded value of magnitude \<open>2^1024\<close>
  or more overflows to an infinity; a result of magnitude at most \<open>2^-1075\<close> rounds
  to zero.
\<close>

definition round_even :: "real \<Rightarrow> int" where
  "round_even r =
     (let f = \<lfloor>r\<rfloor>; d = r - of_int f
      in if d < 1 / 2 then f else if 1 / 2 < d then f + 1
         else if even f then f else f + 1)"

definition ulp_exp :: "real \<Rightarrow> int" where
  "ulp_exp x = max (\<lfloor>log 2 \<bar>x\<bar>\<rfloor> - 52) (- 1074)"

definition rnd :: "real \<Rightarrow> real" where
  "rnd x = of_int (round_even (x / 2 powi ulp_exp x)) * 2 powi ulp_exp x"

definition fl :: "real \<Rightarrow> jsnum" where
  "fl x =
     (if x = 0 then Num 0
      else if 2 ^ 1024 \<le> \<bar>rnd x\<bar> then (if 0 < x then PosInf else NegInf)
      else Num (rnd x))"

fun js_add :: "jsnum \<Rightarrow> jsnum \<Rightarrow> jsnum" where
  "js_add NaN _ = NaN"
| "js_add _ NaN = NaN"
| "js_add (Num x) (Num y) = fl (x + y)"
| "js_add PosInf NegInf = NaN"
| "js_add NegInf PosInf = NaN"
| "js_add PosInf _ = PosInf"
| "js_add _ PosInf = PosInf"
| "js_add NegInf _ = NegInf"
| "js_add _ NegInf = NegInf"

fun js_sub :: "jsnum \<Rightarrow> jsnum \<Rightarrow> jsnum" where
  "js_sub NaN _ = NaN"
| "js_sub _ NaN = NaN"
| "js_sub (Num x) (Num y) = fl (x - y)"
| "js_sub PosInf PosInf = NaN"
| "js_sub NegInf NegInf = NaN"
| "js_sub PosInf _ = PosInf"
| "js_sub NegInf _ = NegInf"
| "js_sub _ PosInf = NegInf"
| "js_sub _ NegInf = PosInf"

definition scale_inf :: "real \<Rightarrow> jsnum \<Rightarrow> jsnum" where
  "scale_inf x pos = (if x = 0 then NaN else if 0 < x then pos
                      else (if pos = PosInf then NegInf else PosInf))"

fun js_mul :: "jsnum \<Rightarrow> jsnum \<Rightarrow> jsnum" where
  "js_mul NaN _ = NaN"
| "js_mul _ NaN = NaN"
| "js_mul (Num x) (Num y) = fl (x * y)"
| "js_mul (Num x) PosInf = scale_inf x PosInf"
| "js_mul (Num x) NegInf = scale_inf x NegInf"
| "js_mul PosInf (Num y) = scale_inf y PosInf"
| "js_mul NegInf (Num y) = scale_inf y NegInf"
| "js_mul PosInf PosInf = PosInf"
| "js_mul NegInf NegInf = PosInf"
| "js_mul PosInf NegInf = NegInf"
| "js_mul NegInf PosInf = NegInf"

fun js_div :: "jsnum \<Rightarrow> jsnum \<Rightarrow> jsnum" where
  "js_div NaN _ = NaN"
| "js_div _ NaN = NaN"
| "js_div (Num x) (Num y) =
     (if y \<noteq> 0 then fl (x / y)
      else if x = 0 then NaN else if 0 < x then PosInf else NegInf)"
| "js_div (Num x) _ = Num 0"
| "js_div PosInf (Num y) = (if 0 \<le> y then PosInf else NegInf)"
| "js_div NegInf (Num y) = (if 0 \<le> y then NegInf else PosInf)"
| "js_div _ _ = NaN"

fun js_sqrt :: "jsnum \<Rightarrow> jsnum" where
  "js_sqrt (Num x) = (if x < 0 then NaN else fl (sqrt x))"
| "js_sqrt PosInf = PosInf"
| "js_sqrt _ = NaN"

text \<open>The comparisons \<open>a > b\<close> and \<open>a >= b\<close>: false whenever an operand is NaN.\<close>

fun js_gt :: "jsnum \<Rightarrow> jsnum \<Rightarrow> bool" where
  "js_gt NaN _ = False"
| "js_gt _ NaN = False"
| "js_gt (Num x) (Num y) = (y < x)"
| "js_gt NegInf _ = False"
| "js_gt _ PosInf = False"
| "js_gt PosInf _ = True"
| "js_gt _ NegInf = True"

fun js_ge :: "jsnum \<Rightarrow> jsnum \<Rightarrow> bool" where
  "js_ge NaN _ = False"
| "js_ge _ NaN = False"
| "js_ge (Num x) (Num y) = (y \<le> x)"
| "js_ge PosInf _ = True"
| "js_ge _ NegInf = True"
| "js_ge _ _ = False"

text \<open>
  The values a metadata record holds (\<open>Record<string, any>\<close>): strings, numbers and
  booleans; a missing key is \<open>undefined\<close>. \<open>JNum n\<close> is a non-negative integer below
  \<open>2^53\<close> (an index, a count, a clock reading in milliseconds): in that range the
  number is the integer and prints as its decimal digits.
\<close>

datatype jsval = JStr string | JNum nat | JBool bool

type_synonym metadata = "string \<rightharpoonup> jsval"

fun truthy :: "jsval \<Rightarrow> bool" where
  "truthy (JStr s) = (s \<noteq> [])"
| "truthy (JNum n) = (n \<noteq> 0)"
| "truthy (JBool b) = b"

definition digit :: "nat \<Rightarrow> char" where
  "digit d =
     (if d = 0 then CHR ''0'' else if d = 1 then CHR ''1'' else if d = 2 then CHR ''2''
      else if d = 3 then CHR ''3'' else if d = 4 then CHR ''4'' else if d = 5 then CHR ''5''
      else if d = 6 then CHR ''6'' else if d = 7 then CHR ''7'' else if d = 8 then CHR ''8''
      else CHR ''9'')"

function showNat :: "nat \<Rightarrow> string" where
  "showNat n = (if n < 10 then [digit n] else showNat (n div 10) @ [digit (n mod 10)])"
  by pat_completeness auto
termination
  by (relation "measure id") auto

declare showNat.simps [simp del]

text \<open>String conversion inside a template literal.\<close>

fun toString :: "jsval \<Rightarrow> string" where
  "toString (JStr s) = s"
| "toString (JNum n) = showNat n"
| "toString (JBool b) = (if b then ''true'' else ''false'')"

text \<open>\<open>a || b\<close> on a possibly undefined left operand.\<close>

definition or_else :: "jsval option \<Rightarrow> jsval \<Rightarrow> jsval" where
  "or_else v d = (case v of None \<Rightarrow> d | Some x \<Rightarrow> if truthy x then x else d)"

text \<open>\<open>Array.prototype.join\<close>.\<close>

fun join :: "string \<Rightarrow> string list \<Rightarrow> string" where
  "join sep [] = []"
| "join sep [x] = x"
| "join sep (x # y # ys) = x @ sep @ join sep (y # ys)"

text \<open>
  \<open>Array.prototype.slice(0, end)\<close> for an integer \<open>end\<close>: a negative \<open>end\<close> counts
  from the end of the array.
\<close>

definition slice0 :: "'a list \<Rightarrow> int \<Rightarrow> 'a list" where
  "slice0 xs e = (if e < 0 then take (nat (int (length xs) + e)) xs else take (nat e) xs)"

text \<open>
  \<open>Array.prototype.sort(compareFn)\<close>: the sort is stable, \<open>y\<close> is placed before \<open>x\<close>
  when \<open>compareFn x y > 0\<close>, and a comparator result of NaN counts as \<open>0\<close>. When the
  comparator orders the elements (ties apart) every stable sort gives the same array;
  insertion from the right is the model of it. When a comparison of two different
  elements is NaN the language leaves the order to the engine, and the model gives one
  such order: the ranking theorem excludes that case, and the arrays evaluated below
  with a NaN score are left in their order by the engine's run detection as by the
  model.
\<close>

fun insert_sorted :: "('a \<Rightarrow> 'a \<Rightarrow> jsnum) \<Rightarrow> 'a \<Rightarrow> 'a list \<Rightarrow> 'a list" where
  "insert_sorted cmp x [] = [x]"
| "insert_sorted cmp x (y # ys) =
     (if js_gt (cmp x y) (Num 0) then y # insert_sorted cmp x ys else x # y # ys)"

definition js_sort :: "('a \<Rightarrow> 'a \<Rightarrow> jsnum) \<Rightarrow> 'a list \<Rightarrow> 'a list" where
  "js_sort cmp xs = foldr (insert_sorted cmp) xs []"

section \<open>The in-memory vector store (rag-agent.ts, SimpleVectorStore)\<close>

text \<open>A vector is an array of finite numbers.\<close>

type_synonym vector = "real list"

record document =
  doc_id :: string
  doc_embedding :: vector
  doc_metadata :: metadata

record VectorResult =
  vr_id :: string
  vr_score :: jsnum
  vr_metadata :: metadata

text \<open>\<open>b[i]\<close> used as a number: an index out of range reads \<open>undefined\<close>, which is NaN
  in arithmetic.\<close>

definition at_index :: "vector \<Rightarrow> nat \<Rightarrow> jsnum" where
  "at_index b i = (if i < length b then Num (b ! i) else NaN)"

text \<open>\<open>a.reduce((sum, a_i, i) => f(sum, a_i, i), init)\<close>, with the running index.\<close>

fun reduce :: "(jsnum \<Rightarrow> real \<Rightarrow> nat \<Rightarrow> jsnum) \<Rightarrow> vector \<Rightarrow> nat \<Rightarrow> jsnum \<Rightarrow> jsnum" where
  "reduce f [] i acc = acc"
| "reduce f (x # xs) i acc = reduce f xs (Suc i) (f acc x i)"

definition dotProduct :: "vector \<Rightarrow> vector \<Rightarrow> jsnum" where
  "dotProduct a b = reduce (\<lambda>sum a_i i. js_add sum (js_mul (Num a_i) (at_index b i))) a 0 (Num 0)"

definition magnitude :: "vector \<Rightarrow> jsnum" where
  "magnitude a = js_sqrt (reduce (\<lambda>sum a_i i. js_add sum (js_mul (Num a_i) (Num a_i))) a 0 (Num 0))"

definition cosineSimilarity :: "vector \<Rightarrow> vector \<Rightarrow> jsnum" where
  "cosineSimilarity a b = js_div (dotProduct a b) (js_mul (magnitude a) (magnitude b))"

definition to_result :: "vector \<Rightarrow> document \<Rightarrow> VectorResult" where
  "to_result queryEmbedding doc =
     \<lparr> vr_id = doc_id doc,
       vr_score = cosineSimilarity queryEmbedding (doc_embedding doc),
       vr_metadata = doc_metadata doc \<rparr>"

definition compareFn :: "VectorResult \<Rightarrow> VectorResult \<Rightarrow> jsnum" where
  "compareFn a b = js_sub (vr_score b) (vr_score a)"

definition query :: "document list \<Rightarrow> vector \<Rightarrow> int \<Rightarrow> VectorResult list" where
  "query documents queryEmbedding topK =
     (let results = map (to_result queryEmbedding) documents
      in filter (\<lambda>result. js_gt (vr_score result) (fl (1 / 10)))
           (slice0 (js_sort compareFn results) topK))"

text \<open>
  The search tool of rag-agent.ts over the in-memory store. \<open>embed\<close> is the call to the
  embedding service, which returns a vector or throws.
\<close>

text \<open>What a call throws: an \<open>Error\<close> with its message, or any other value.\<close>

datatype error = Error string | Thrown jsval

text \<open>\<open>error instanceof Error ? error.message : 'Unknown error occurred'\<close>.\<close>

definition errorMessage :: "error \<Rightarrow> string" where
  "errorMessage e = (case e of Error m \<Rightarrow> m | Thrown v \<Rightarrow> ''Unknown error occurred'')"

record Source =
  src_id :: string
  src_content :: jsval
  src_score :: jsnum
  src_metadata :: metadata

record SimpleResponse =
  sr_relevantContext :: string
  sr_sources :: "Source list"

definition separator :: string where
  "separator = ''\<newline>\<newline>---\<newline>\<newline>''"

fun enumerate_from :: "nat \<Rightarrow> 'a list \<Rightarrow> ('a \<times> nat) list" where
  "enumerate_from i [] = []"
| "enumerate_from i (x # xs) = (x, i) # enumerate_from (Suc i) xs"

definition simple_source :: "VectorResult \<times> nat \<Rightarrow> Source" where
  "simple_source p = (case p of (result, index) \<Rightarrow>
     \<lparr> src_id = (if vr_id result \<noteq> [] then vr_id result else ''result-'' @ showNat index),
       src_content = or_else (vr_metadata result ''text'') (JStr ''No content available''),
       src_score = (if vr_score result = NaN \<or> vr_score result = Num 0 then Num 0
                    else vr_score result),
       src_metadata = vr_metadata result \<rparr>)"

definition ragSearch_simple ::
  "(string \<Rightarrow> error + vector) \<Rightarrow> document list \<Rightarrow> string \<Rightarrow> int \<Rightarrow> SimpleResponse" where
  "ragSearch_simple embed_impl documents q maxResults =
     (case embed_impl q of
        Inl e \<Rightarrow>
          \<lparr> sr_relevantContext =
              ''Error occurred while searching the knowledge base: ''
                @ (case e of Error m \<Rightarrow> m | Thrown v \<Rightarrow> ''Unknown error'')
                @ ''. Please try rephrasing your question.'',
            sr_sources = [] \<rparr>
      | Inr queryEmbedding \<Rightarrow>
          (let searchResults = query documents queryEmbedding maxResults
           in if searchResults = [] then
                \<lparr> sr_relevantContext = ''No relevant documents found for the given query.'',
                  sr_sources = [] \<rparr>
              else
                (let sources = map simple_source (enumerate_from 0 searchResults)
                 in \<lparr> sr_relevantContext =
                         join separator (map (\<lambda>source. toString (src_content source)) sources),
                       sr_sources = sources \<rparr>)))"

section \<open>The tools over the vector database (rag-tools)\<close>

text \<open>
  The document library, the embedding service, the vector database and the clock are
  collaborators outside the repository. Each is a parameter of the model: a call
  returns its value or the error it throws, and a store call also returns the store it
  leaves behind. \<open>mdocument\<close> stands for \<open>MDocument.fromText(text, metadata)\<close> followed by
  \<open>chunk({strategy: 'recursive', size, overlap, separator})\<close> and \<open>getMetadata()\<close>: it
  returns the chunks and the metadata array. \<open>clock env k\<close> is the \<open>k\<close>-th reading of the
  time within one call.
\<close>

record chunk =
  chunk_text :: string
  chunk_metadata :: metadata

record index_params =
  indexName :: string
  dimension :: nat
  metric :: string

record upsert_args =
  up_indexName :: string
  up_vectors :: "vector list"
  up_metadata :: "metadata list"
  up_ids :: "string list"

record query_args =
  q_indexName :: string
  q_queryVector :: "vector option"
  q_topK :: int
  q_filter :: "metadata option"
  q_includeVector :: bool
  q_minScore :: real

record QueryResult =
  qr_id :: string
  qr_score :: jsnum
  qr_metadata :: "metadata option"

record 'st env =
  mdocument :: "string \<Rightarrow> metadata \<Rightarrow> int \<Rightarrow> int \<Rightarrow> error + (chunk list \<times> metadata list)"
  embedMany :: "string list \<Rightarrow> error + vector list"
  createIndex :: "'st \<Rightarrow> index_params \<Rightarrow> error option \<times> 'st"
  upsert :: "'st \<Rightarrow> upsert_args \<Rightarrow> error option \<times> 'st"
  vquery :: "'st \<Rightarrow> query_args \<Rightarrow> error + QueryResult list"
  clock :: "nat \<Rightarrow> nat"
  toISOString :: "nat \<Rightarrow> string"

datatype event =
  EvChunk string metadata int int
| EvCreateIndex index_params
| EvEmbedMany "string list"
| EvUpsert upsert_args
| EvQuery query_args

fun is_embed :: "event \<Rightarrow> bool" where
  "is_embed (EvEmbedMany _) = True"
| "is_embed _ = False"

fun is_upsert :: "event \<Rightarrow> bool" where
  "is_upsert (EvUpsert _) = True"
| "is_upsert _ = False"

record add_context =
  ac_text :: string
  ac_metadata :: "metadata option"
  ac_chunkSize :: "int option"
  ac_chunkOverlap :: "int option"

record AddResult =
  documentId :: jsval
  chunksCreated :: nat
  embedded :: bool
  message :: string

definition knowledge_base :: index_params where
  "knowledge_base = \<lparr> indexName = ''knowledge-base'', dimension = 768, metric = ''cosine'' \<rparr>"

text \<open>\<open>docMetadata[0]?.id\<close>.\<close>

definition first_id :: "metadata list \<Rightarrow> jsval option" where
  "first_id docMetadata = (case docMetadata of [] \<Rightarrow> None | m # _ \<Rightarrow> m ''id'')"

definition chunk_id :: "jsval \<Rightarrow> nat \<Rightarrow> string" where
  "chunk_id docId index = toString docId @ ''-chunk-'' @ showNat index"

text \<open>The context with its defaults: \<open>metadata = {}\<close>, \<open>chunkSize = 512\<close>,
  \<open>chunkOverlap = 50\<close>.\<close>

definition caller_metadata :: "add_context \<Rightarrow> metadata" where
  "caller_metadata context = (case ac_metadata context of None \<Rightarrow> Map.empty | Some m \<Rightarrow> m)"

definition chunkSize :: "add_context \<Rightarrow> int" where
  "chunkSize context = (case ac_chunkSize context of None \<Rightarrow> 512 | Some n \<Rightarrow> n)"

definition chunkOverlap :: "add_context \<Rightarrow> int" where
  "chunkOverlap context = (case ac_chunkOverlap context of None \<Rightarrow> 50 | Some n \<Rightarrow> n)"

text \<open>The metadata handed to \<open>MDocument.fromText\<close>: the spread of the caller's metadata,
  then \<open>addedAt\<close> and \<open>id\<close>, which replace a key of the same name.\<close>

definition document_metadata :: "'st env \<Rightarrow> add_context \<Rightarrow> metadata" where
  "document_metadata env context =
     (caller_metadata context)
       (''addedAt'' \<mapsto> JStr (toISOString env (clock env 0)),
        ''id'' \<mapsto> JStr (''doc-'' @ showNat (clock env 1)))"

definition chunk_document :: "'st env \<Rightarrow> add_context \<Rightarrow> error + (chunk list \<times> metadata list)" where
  "chunk_document env context =
     mdocument env (ac_text context) (document_metadata env context)
       (chunkSize context) (chunkOverlap context)"

text \<open>\<open>docMetadata[0]?.id || `doc-${Date.now()}`\<close>; the clock is read a third time only
  when the left operand is falsy.\<close>

definition document_id :: "'st env \<Rightarrow> metadata list \<Rightarrow> jsval" where
  "document_id env docMetadata =
     or_else (first_id docMetadata) (JStr (''doc-'' @ showNat (clock env 2)))"

definition clock_reads :: "metadata list \<Rightarrow> nat" where
  "clock_reads docMetadata =
     (case first_id docMetadata of None \<Rightarrow> 3 | Some v \<Rightarrow> if truthy v then 2 else 3)"

definition chunkMetadata :: "'st env \<Rightarrow> metadata list \<Rightarrow> chunk list \<Rightarrow> metadata list" where
  "chunkMetadata env docMetadata chunks =
     map (\<lambda>(c, index).
           (chunk_metadata c)
             (''text'' \<mapsto> JStr (chunk_text c),
              ''documentId'' \<mapsto> document_id env docMetadata,
              ''chunkIndex'' \<mapsto> JNum index,
              ''addedAt'' \<mapsto> JStr (toISOString env (clock env (clock_reads docMetadata + index)))))
         (enumerate_from 0 chunks)"

text \<open>The argument of \<open>vectorStore.upsert\<close>.\<close>

definition store_args :: "'st env \<Rightarrow> metadata list \<Rightarrow> chunk list \<Rightarrow> vector list \<Rightarrow> upsert_args" where
  "store_args env docMetadata chunks embeddings =
     \<lparr> up_indexName = ''knowledge-base'',
       up_vectors = embeddings,
       up_metadata = chunkMetadata env docMetadata chunks,
       up_ids = map (\<lambda>(c, index). chunk_id (document_id env docMetadata) index)
                  (enumerate_from 0 chunks) \<rparr>"

definition chunk_event :: "'st env \<Rightarrow> add_context \<Rightarrow> event" where
  "chunk_event env context =
     EvChunk (ac_text context) (document_metadata env context)
       (chunkSize context) (chunkOverlap context)"

text \<open>
  The body of the \<open>try\<close> block of \<open>addDocumentTool.execute\<close>: the outcome, the store
  left behind and the calls made to the collaborators, in order. An error thrown by
  \<open>createIndex\<close> is caught on the spot and dropped.
\<close>

definition addDocument_try ::
  "'st env \<Rightarrow> 'st \<Rightarrow> add_context \<Rightarrow> (error + AddResult) \<times> 'st \<times> event list" where
  "addDocument_try env st context =
     (case chunk_document env context of
        Inl e \<Rightarrow> (Inl e, st, [chunk_event env context])
      | Inr (chunks, docMetadata) \<Rightarrow>
          (let st1 = snd (createIndex env st knowledge_base);
               chunkTexts = map chunk_text chunks;
               evs = [chunk_event env context, EvCreateIndex knowledge_base,
                      EvEmbedMany chunkTexts]
           in case embedMany env chunkTexts of
                Inl e \<Rightarrow> (Inl e, st1, evs)
              | Inr embeddings \<Rightarrow>
                  (let args = store_args env docMetadata chunks embeddings
                   in case upsert env st1 args of
                        (Some e, st2) \<Rightarrow> (Inl e, st2, evs @ [EvUpsert args])
                      | (None, st2) \<Rightarrow>
                          (Inr \<lparr> documentId = document_id env docMetadata,
                                 chunksCreated = length chunks,
                                 embedded = True,
                                 message = ''Successfully processed document into ''
                                   @ showNat (length chunks)
                                   @ '' chunks and stored embeddings in vector database.'' \<rparr>,
                           st2, evs @ [EvUpsert args]))))"

text \<open>The result built by the \<open>catch\<close> block.\<close>

definition failed_result :: "error \<Rightarrow> AddResult" where
  "failed_result e =
     \<lparr> documentId = JStr ''error'',
       chunksCreated = 0,
       embedded = False,
       message = ''Error processing document: '' @ errorMessage e \<rparr>"

text \<open>The whole of \<open>execute\<close>: the \<open>catch\<close> block turns every error into a result.\<close>

definition addDocument :: "'st env \<Rightarrow> 'st \<Rightarrow> add_context \<Rightarrow> AddResult \<times> 'st \<times> event list" where
  "addDocument env st context =
     (case addDocument_try env st context of
        (Inr r, st', evs) \<Rightarrow> (r, st', evs)
      | (Inl e, st', evs) \<Rightarrow> (failed_result e, st', evs))"

record search_context =
  sc_query :: string
  sc_maxResults :: "int option"
  sc_minScore :: "real option"
  sc_filter :: "metadata option"

record SearchResponse =
  relevantContext :: string
  sources :: "Source list"
  totalFound :: nat
  searchPerformed :: bool

definition to_source :: "QueryResult \<Rightarrow> Source" where
  "to_source result =
     \<lparr> src_id = qr_id result,
       src_content = or_else (case qr_metadata result of None \<Rightarrow> None | Some m \<Rightarrow> m ''text'')
                             (JStr ''No content available''),
       src_score = qr_score result,
       src_metadata = (case qr_metadata result of None \<Rightarrow> Map.empty | Some m \<Rightarrow> m) \<rparr>"

definition source_block :: "Source \<Rightarrow> string" where
  "source_block source =
     ''[Source: '' @ toString (or_else (src_metadata source ''documentId'') (JStr ''unknown''))
       @ '']\<newline>'' @ toString (src_content source)"

text \<open>The argument of \<open>vectorStore.query\<close>, built from the context and the embeddings
  returned for the query text.\<close>

definition search_args :: "search_context \<Rightarrow> vector list \<Rightarrow> query_args" where
  "search_args context embeddings =
     \<lparr> q_indexName = ''knowledge-base'',
       q_queryVector = (case embeddings of [] \<Rightarrow> None | v # _ \<Rightarrow> Some v),
       q_topK = (case sc_maxResults context of None \<Rightarrow> 5 | Some n \<Rightarrow> n),
       q_filter = sc_filter context,
       q_includeVector = False,
       q_minScore = (case sc_minScore context of None \<Rightarrow> 7 / 10 | Some x \<Rightarrow> x) \<rparr>"

text \<open>The body of the \<open>try\<close> block of the advanced \<open>ragSearchTool.execute\<close>.\<close>

definition ragSearch_try :: "'st env \<Rightarrow> 'st \<Rightarrow> search_context \<Rightarrow> error + SearchResponse" where
  "ragSearch_try env st context =
     (case embedMany env [sc_query context] of
        Inl e \<Rightarrow> Inl e
      | Inr embeddings \<Rightarrow>
          (case vquery env st (search_args context embeddings) of
             Inl e \<Rightarrow> Inl e
           | Inr vectorResults \<Rightarrow>
               (let sources = map to_source vectorResults
                in Inr \<lparr> relevantContext = join separator (map source_block sources),
                         sources = sources,
                         totalFound = length vectorResults,
                         searchPerformed = True \<rparr>)))"

definition fallback_source :: "string \<Rightarrow> error \<Rightarrow> Source" where
  "fallback_source q e =
     \<lparr> src_id = ''fallback-1'',
       src_content = JStr (''Based on the query '' @ [CHR 0x22] @ q @ [CHR 0x22]
         @ '', here is fallback information. The vector search encountered an error: ''
         @ errorMessage e),
       src_score = Num (1 / 2),
       src_metadata = [''documentId'' \<mapsto> JStr ''fallback'',
                       ''source'' \<mapsto> JStr ''error-fallback'',
                       ''error'' \<mapsto> JBool True] \<rparr>"

definition ragSearch :: "'st env \<Rightarrow> 'st \<Rightarrow> search_context \<Rightarrow> SearchResponse" where
  "ragSearch env st context =
     (case ragSearch_try env st context of
        Inr r \<Rightarrow> r
      | Inl e \<Rightarrow>
          (let mockResults = [fallback_source (sc_query context) e]
           in \<lparr> relevantContext = toString (src_content (hd mockResults)),
                sources = mockResults,
                totalFound = 1,
                searchPerformed = False \<rparr>))"

section \<open>A reference store\<close>

record index =
  ix_dimension :: nat
  ix_metric :: string
  ix_entries :: "(string \<times> vector \<times> metadata) list"

type_synonym store = "string \<rightharpoonup> index"

text \<open>
  Modelled from the spec: \<open>createIndex\<close> of the vector database, whose code is not part
  of the repository. The spec says: idempotent; if the index already exists this is a
  benign no-op, surfaced as a recoverable condition (\<open>IndexAlreadyExists\<close>), never a
  hard failure.
\<close>

definition spec_createIndex :: "store \<Rightarrow> index_params \<Rightarrow> error option \<times> store" where
  "spec_createIndex st p =
     (case st (indexName p) of
        Some ix \<Rightarrow> (Some (Error ''IndexAlreadyExists''), st)
      | None \<Rightarrow> (None, st(indexName p \<mapsto>
                   \<lparr> ix_dimension = dimension p, ix_metric = metric p, ix_entries = [] \<rparr>)))"

section \<open>Test doubles\<close>

text \<open>
  Concrete collaborators, used to run the tools on explicit inputs: a document library
  that returns the text as one chunk carrying the document's metadata (and no chunk
  for the empty text), an embedder that maps every text to the vector \<open>[1, 0]\<close>, a store
  that creates indexes as the reference store does and writes entries by id, an empty
  query result, and a clock that stands still.
\<close>

fun put_entry ::
  "string \<times> vector \<times> metadata \<Rightarrow> (string \<times> vector \<times> metadata) list
     \<Rightarrow> (string \<times> vector \<times> metadata) list" where
  "put_entry e [] = [e]"
| "put_entry e (x # xs) = (if fst x = fst e then e # xs else x # put_entry e xs)"

definition double_upsert :: "store \<Rightarrow> upsert_args \<Rightarrow> error option \<times> store" where
  "double_upsert st a =
     (case st (up_indexName a) of
        None \<Rightarrow> (Some (Error ''no such index''), st)
      | Some ix \<Rightarrow>
          (None, st(up_indexName a \<mapsto>
             ix\<lparr> ix_entries := fold put_entry
                    (zip (up_ids a) (zip (up_vectors a) (up_metadata a))) (ix_entries ix) \<rparr>)))"

definition double_env :: "store env" where
  "double_env =
     \<lparr> mdocument = (\<lambda>text md size overlap.
         Inr (if text = [] then ([], [])
              else ([\<lparr> chunk_text = text, chunk_metadata = md \<rparr>], [md]))),
       embedMany = (\<lambda>texts. Inr (map (\<lambda>t. [1, 0]) texts)),
       createIndex = spec_createIndex,
       upsert = double_upsert,
       vquery = (\<lambda>st args. Inr []),
       clock = (\<lambda>k. 1700000000000),
       toISOString = (\<lambda>t. ''2023-11-14T22:13:20.000Z'') \<rparr>"

definition add_hello :: add_context where
  "add_hello = \<lparr> ac_text = ''hello'', ac_metadata = Some [''id'' \<mapsto> JStr ''my-doc''],
                 ac_chunkSize = None, ac_chunkOverlap = None \<rparr>"

definition add_empty :: add_context where
  "add_empty = \<lparr> ac_text = [], ac_metadata = None,
                 ac_chunkSize = None, ac_chunkOverlap = None \<rparr>"

definition search_hello :: search_context where
  "search_hello = \<lparr> sc_query = ''hello'', sc_maxResults = None, sc_minScore = None,
                    sc_filter = None \<rparr>"

definition broken_env :: "store env" where
  "broken_env = double_env\<lparr>vquery := \<lambda>st args. Inl (Error ''no such table'')\<rparr>"

definition embed_down_env :: "store env" where
  "embed_down_env = double_env\<lparr>embedMany := \<lambda>texts. Inl (Error ''quota exceeded'')\<rparr>"

definition thrown_env :: "jsval \<Rightarrow> store env" where
  "thrown_env v = double_env\<lparr>vquery := \<lambda>st args. Inl (Thrown v)\<rparr>"

text \<open>
  Stored documents whose scores against the query vector \<open>[1, 1, 1, 1]\<close> are computed
  without rounding (0.5, NaN and 1), and numbers whose squares underflow.
\<close>

definition doc_a :: document where
  "doc_a = \<lparr> doc_id = ''a'', doc_embedding = [1, 0, 0, 0], doc_metadata = Map.empty \<rparr>"

definition doc_zero :: document where
  "doc_zero = \<lparr> doc_id = ''z'', doc_embedding = [0, 0, 0, 0], doc_metadata = Map.empty \<rparr>"

definition doc_b :: document where
  "doc_b = \<lparr> doc_id = ''b'', doc_embedding = [1, 1, 1, 1], doc_metadata = Map.empty \<rparr>"

definition tiny :: real where
  "tiny = 1 / 2 ^ 560"

definition small :: real where
  "small = 1 / 2 ^ 500"

definition doc_small :: document where
  "doc_small = \<lparr> doc_id = ''s'', doc_embedding = [small], doc_metadata = Map.empty \<rparr>"

section \<open>The similarity of the specification\<close>

text \<open>The formula \<open>dot(a,b) / (|a| * |b|)\<close> of the specification, on the reals, without
  rounding.\<close>

definition spec_dot :: "vector \<Rightarrow> vector \<Rightarrow> real" where
  "spec_dot a b = (\<Sum>(x, y)\<leftarrow>zip a b. x * y)"

definition spec_norm :: "vector \<Rightarrow> real" where
  "spec_norm a = sqrt (\<Sum>x\<leftarrow>a. x * x)"

definition spec_cosine :: "vector \<Rightarrow> vector \<Rightarrow> real" where
  "spec_cosine a b = spec_dot a b / (spec_norm a * spec_norm b)"

definition nonzero :: "vector \<Rightarrow> bool" where
  "nonzero v = list_ex (\<lambda>x. x \<noteq> 0) v"

section \<open>Notions used in the proofs\<close>

text \<open>The rank of a score: a score ranks before another when the comparator puts it
  first.\<close>

fun rank_key :: "jsnum \<Rightarrow> nat \<times> real" where
  "rank_key PosInf = (0, 0)"
| "rank_key (Num x) = (1, - x)"
| "rank_key NegInf = (2, 0)"
| "rank_key NaN = (3, 0)"

text \<open>Every finite double is a multiple of the least subnormal.\<close>

fun on_grid :: "jsnum \<Rightarrow> bool" where
  "on_grid (Num x) = (\<exists>n::int. x = of_int n / 2 ^ 1074)"
| "on_grid _ = True"

definition rankable :: "VectorResult \<Rightarrow> bool" where
  "rankable r = (vr_score r \<noteq> NaN \<and> on_grid (vr_score r))"

fun nonneg_or_inf :: "jsnum \<Rightarrow> bool" where
  "nonneg_or_inf (Num m) = (0 \<le> m)"
| "nonneg_or_inf PosInf = True"
| "nonneg_or_inf _ = False"

fun zero_or_nan :: "jsnum \<Rightarrow> bool" where
  "zero_or_nan (Num x) = (x = 0)"
| "zero_or_nan NaN = True"
| "zero_or_nan _ = False"

section \<open>Auxiliary facts\<close>

lemma enumerate_from_length [simp]: "length (enumerate_from k xs) = length xs"
  by (induction xs arbitrary: k) auto

lemma enumerate_from_nth: "i < length xs \<Longrightarrow> enumerate_from k xs ! i = (xs ! i, k + i)"
  by (induction xs arbitrary: k i) (auto simp: nth_Cons split: nat.splits)

lemma addDocument_events:
  assumes "chunk_document env context = Inr (chunks, docMetadata)"
  shows "snd (snd (addDocument env st context)) =
           [chunk_event env context, EvCreateIndex knowledge_base,
            EvEmbedMany (map chunk_text chunks)]
           @ (case embedMany env (map chunk_text chunks) of
                Inl e \<Rightarrow> []
              | Inr vs \<Rightarrow> [EvUpsert (store_args env docMetadata chunks vs)])"
  using assms
  by (simp add: addDocument_def addDocument_try_def Let_def
      split: sum.splits prod.splits option.splits)

lemma double_env_chunks_hello:
  "chunk_document (double_env\<lparr>embedMany := f\<rparr>) add_hello =
     Inr ([\<lparr> chunk_text = ''hello'',
              chunk_metadata = document_metadata (double_env\<lparr>embedMany := f\<rparr>) add_hello \<rparr>],
          [document_metadata (double_env\<lparr>embedMany := f\<rparr>) add_hello])"
  by (simp add: chunk_document_def double_env_def add_hello_def)

section \<open>Search degrades on a store failure\<close>

text \<open>
  C1, as stated, fails for a thrown value that is not an \<open>Error\<close>: the content of the
  fallback source then ends with the fixed text \<open>Unknown error occurred\<close>, and two
  different thrown values give the same sources.
\<close>

theorem search_failure_reason_lost:
  "map src_content (sources (ragSearch (thrown_env (JStr ''disk full'')) Map.empty search_hello))
     = [JStr (''Based on the query '' @ [CHR 0x22] @ ''hello'' @ [CHR 0x22]
          @ '', here is fallback information. The vector search encountered an error: Unknown error occurred'')]
   \<and> sources (ragSearch (thrown_env (JStr ''disk full'')) Map.empty search_hello)
     = sources (ragSearch (thrown_env (JStr ''timeout'')) Map.empty search_hello)"
  by (simp add: ragSearch_def ragSearch_try_def fallback_source_def errorMessage_def
      thrown_env_def double_env_def search_hello_def)

text \<open>
  C1, amended. When the query embedding was computed and the store query then throws,
  the search returns a response with exactly one source, the synthetic fallback: its
  metadata has \<open>error: true\<close>, its content ends with the message of the thrown
  \<open>Error\<close>, or with \<open>Unknown error occurred\<close> when the thrown value is not an \<open>Error\<close>,
  \<open>totalFound\<close> is 1 and \<open>searchPerformed\<close> is false. \<open>ragSearch\<close> returns a response
  on every path, so nothing is raised to the caller.
\<close>

theorem search_failure_fallback:
  assumes "embedMany env [sc_query context] = Inr embeddings"
      and "vquery env st (search_args context embeddings) = Inl e"
  shows "\<exists>s. sources (ragSearch env st context) = [s]
           \<and> src_metadata s ''error'' = Some (JBool True)
           \<and> src_content s =
               JStr (''Based on the query '' @ [CHR 0x22] @ sc_query context @ [CHR 0x22]
                 @ '', here is fallback information. The vector search encountered an error: ''
                 @ (case e of Error m \<Rightarrow> m | Thrown v \<Rightarrow> ''Unknown error occurred''))
           \<and> relevantContext (ragSearch env st context) = toString (src_content s)
           \<and> totalFound (ragSearch env st context) = 1
           \<and> searchPerformed (ragSearch env st context) = False"
  using assms
  by (simp add: ragSearch_def ragSearch_try_def fallback_source_def errorMessage_def)

theorem search_failure_fallback_witness:
  "\<exists>s. sources (ragSearch broken_env Map.empty search_hello) = [s]
     \<and> src_metadata s ''error'' = Some (JBool True)
     \<and> src_content s =
         JStr (''Based on the query '' @ [CHR 0x22] @ ''hello'' @ [CHR 0x22]
           @ '', here is fallback information. The vector search encountered an error: no such table'')
     \<and> searchPerformed (ragSearch broken_env Map.empty search_hello) = False"
proof -
  have h1: "embedMany broken_env [sc_query search_hello] = Inr [[1, 0]]"
    by (simp add: broken_env_def double_env_def)
  have h2: "vquery broken_env Map.empty (search_args search_hello [[1, 0]])
              = Inl (Error ''no such table'')"
    by (simp add: broken_env_def)
  from search_failure_fallback [OF h1 h2] show ?thesis
    by (auto simp: search_hello_def)
qed

section \<open>An empty result\<close>

text \<open>
  C2. On an empty result of the store query the advanced search tool returns no source,
  \<open>totalFound = 0\<close> and \<open>searchPerformed = true\<close>, but its \<open>relevantContext\<close> is the
  empty string: the join of no blocks. The search tool over the in-memory store returns
  the sentinel text on the same input.
\<close>

theorem empty_result_context:
  "relevantContext (ragSearch double_env Map.empty search_hello) = []
   \<and> sources (ragSearch double_env Map.empty search_hello) = []
   \<and> totalFound (ragSearch double_env Map.empty search_hello) = 0
   \<and> searchPerformed (ragSearch double_env Map.empty search_hello) = True
   \<and> sr_relevantContext (ragSearch_simple (\<lambda>q. Inr [1, 0]) [] ''hello'' 5)
        = ''No relevant documents found for the given query.''"
  by (simp add: ragSearch_def ragSearch_try_def double_env_def search_hello_def
      ragSearch_simple_def query_def js_sort_def slice0_def)

section \<open>Ingestion: embedding before writing\<close>

text \<open>
  C3, as stated, fails: \<open>createIndex\<close> is called before the embedder. A call on a store
  without the index whose embedding call throws makes no upsert and returns the failed
  result, but leaves a store that has the index.
\<close>

theorem embedding_failure_index_created:
  "embedded (fst (addDocument embed_down_env Map.empty add_hello)) = False
   \<and> map is_embed (snd (snd (addDocument embed_down_env Map.empty add_hello)))
     = [False, False, True]
   \<and> snd (snd (addDocument embed_down_env Map.empty add_hello)) ! 1
     = EvCreateIndex knowledge_base
   \<and> fst (snd (addDocument embed_down_env Map.empty add_hello)) ''knowledge-base''
     = Some \<lparr> ix_dimension = 768, ix_metric = ''cosine'', ix_entries = [] \<rparr>
   \<and> fst (snd (addDocument embed_down_env Map.empty add_hello)) \<noteq> Map.empty"
proof -
  have s: "fst (snd (addDocument embed_down_env Map.empty add_hello))
             = snd (spec_createIndex Map.empty knowledge_base)"
    and r: "embedded (fst (addDocument embed_down_env Map.empty add_hello)) = False"
    and e: "snd (snd (addDocument embed_down_env Map.empty add_hello))
              = [chunk_event embed_down_env add_hello, EvCreateIndex knowledge_base,
                 EvEmbedMany [''hello'']]"
    by (simp_all add: addDocument_def addDocument_try_def chunk_document_def
        embed_down_env_def double_env_def add_hello_def failed_result_def)
  have i: "snd (spec_createIndex Map.empty knowledge_base) ''knowledge-base''
             = Some \<lparr> ix_dimension = 768, ix_metric = ''cosine'', ix_entries = [] \<rparr>"
    by (simp add: spec_createIndex_def knowledge_base_def)
  then have "snd (spec_createIndex Map.empty knowledge_base) \<noteq> Map.empty"
    by (metis option.distinct(1))
  with s r e i show ?thesis
    by (simp add: chunk_event_def)
qed

text \<open>
  C3, amended. In a call whose document was chunked and whose embedding call throws, the
  result is the failed result (\<open>embedded = false\<close>, the message carrying the error),
  the collaborators called are the document library, \<open>createIndex\<close> and \<open>embedMany\<close>
  and no other, so no upsert is made, and the store is the one \<open>createIndex\<close> left: the
  given store when \<open>createIndex\<close> changes nothing. In every call, an upsert in the list
  of calls is the last call and comes directly after the embedding call, which returned
  the vectors.
\<close>

theorem embedding_failure_no_upsert:
  assumes "chunk_document env context = Inr (chunks, docMetadata)"
  shows "(embedMany env (map chunk_text chunks) = Inl e \<longrightarrow>
            addDocument env st context =
              (failed_result e, snd (createIndex env st knowledge_base),
               [chunk_event env context, EvCreateIndex knowledge_base,
                EvEmbedMany (map chunk_text chunks)])
            \<and> embedded (failed_result e) = False
            \<and> message (failed_result e) = ''Error processing document: '' @ errorMessage e
            \<and> filter is_upsert (snd (snd (addDocument env st context))) = []
            \<and> (snd (createIndex env st knowledge_base) = st \<longrightarrow>
                 fst (snd (addDocument env st context)) = st))
       \<and> (EvUpsert a \<in> set (snd (snd (addDocument env st context))) \<longrightarrow>
            (\<exists>vs. embedMany env (map chunk_text chunks) = Inr vs
               \<and> snd (snd (addDocument env st context)) =
                   [chunk_event env context, EvCreateIndex knowledge_base,
                    EvEmbedMany (map chunk_text chunks), EvUpsert a]))"
proof (intro conjI impI)
  assume f: "embedMany env (map chunk_text chunks) = Inl e"
  with assms show r: "addDocument env st context =
      (failed_result e, snd (createIndex env st knowledge_base),
       [chunk_event env context, EvCreateIndex knowledge_base,
        EvEmbedMany (map chunk_text chunks)])"
    by (simp add: addDocument_def addDocument_try_def)
  show "embedded (failed_result e) = False"
    by (simp add: failed_result_def)
  show "message (failed_result e) = ''Error processing document: '' @ errorMessage e"
    by (simp add: failed_result_def)
  from f show "filter is_upsert (snd (snd (addDocument env st context))) = []"
    by (simp add: addDocument_events [OF assms] chunk_event_def)
  assume "snd (createIndex env st knowledge_base) = st"
  with r show "fst (snd (addDocument env st context)) = st"
    by simp
next
  assume u: "EvUpsert a \<in> set (snd (snd (addDocument env st context)))"
  then show "\<exists>vs. embedMany env (map chunk_text chunks) = Inr vs
      \<and> snd (snd (addDocument env st context)) =
          [chunk_event env context, EvCreateIndex knowledge_base,
           EvEmbedMany (map chunk_text chunks), EvUpsert a]"
    by (auto simp: addDocument_events [OF assms] chunk_event_def split: sum.splits)
qed

theorem embedding_failure_no_upsert_witness:
  "fst (addDocument embed_down_env (snd (spec_createIndex Map.empty knowledge_base)) add_hello)
     = \<lparr> documentId = JStr ''error'', chunksCreated = 0, embedded = False,
         message = ''Error processing document: quota exceeded'' \<rparr>
   \<and> fst (snd (addDocument embed_down_env (snd (spec_createIndex Map.empty knowledge_base))
        add_hello))
     = snd (spec_createIndex Map.empty knowledge_base)
   \<and> filter is_upsert (snd (snd (addDocument embed_down_env
        (snd (spec_createIndex Map.empty knowledge_base)) add_hello))) = []"
proof -
  let ?st = "snd (spec_createIndex Map.empty knowledge_base)"
  let ?md = "document_metadata embed_down_env add_hello"
  let ?c = "\<lparr> chunk_text = ''hello'', chunk_metadata = ?md \<rparr>"
  have h: "chunk_document embed_down_env add_hello = Inr ([?c], [?md])"
    unfolding embed_down_env_def by (rule double_env_chunks_hello)
  have f: "embedMany embed_down_env (map chunk_text [?c]) = Inl (Error ''quota exceeded'')"
    by (simp add: embed_down_env_def)
  have c: "snd (createIndex embed_down_env ?st knowledge_base) = ?st"
    by (simp add: embed_down_env_def double_env_def spec_createIndex_def knowledge_base_def)
  from embedding_failure_no_upsert [OF h, of "Error ''quota exceeded''" ?st] f c
  show ?thesis
    by (simp add: failed_result_def errorMessage_def chunk_event_def)
qed

section \<open>Ingestion: the document id\<close>

text \<open>
  C6. A call with the caller-supplied id \<open>my-doc\<close> in its metadata returns the
  generated id \<open>doc-1700000000000\<close> as \<open>documentId\<close>: the generated \<open>id\<close> key is
  written after the spread of the caller's metadata and replaces it. A second call
  with another text at the same clock reading returns the same generated id.
\<close>

theorem supplied_id_overwritten:
  "documentId (fst (addDocument double_env Map.empty add_hello)) = JStr ''doc-1700000000000''
   \<and> caller_metadata add_hello ''id'' = Some (JStr ''my-doc'')
   \<and> documentId (fst (addDocument double_env Map.empty
         (add_hello\<lparr>ac_text := ''another text'', ac_metadata := None\<rparr>)))
       = JStr ''doc-1700000000000''"
  by (simp add: addDocument_def addDocument_try_def chunk_document_def document_metadata_def
      caller_metadata_def document_id_def first_id_def or_else_def double_env_def add_hello_def
      spec_createIndex_def double_upsert_def knowledge_base_def store_args_def
      showNat.simps digit_def)

text \<open>
  Whenever the metadata array of the document library starts with the \<open>id\<close> that was
  handed to \<open>fromText\<close>, a successful call returns the id generated from the clock,
  whatever the caller supplied.
\<close>

lemma caller_id_ignored:
  assumes "chunk_document env context = Inr (chunks, docMetadata)"
      and "first_id docMetadata = document_metadata env context ''id''"
      and "embedMany env (map chunk_text chunks) = Inr vs"
      and "fst (upsert env (snd (createIndex env st knowledge_base))
                  (store_args env docMetadata chunks vs)) = None"
  shows "documentId (fst (addDocument env st context)) = JStr (''doc-'' @ showNat (clock env 1))"
  using assms
  by (auto simp add: addDocument_def addDocument_try_def document_metadata_def
      document_id_def or_else_def Let_def split: prod.splits option.splits)

section \<open>Ingestion: the empty text\<close>

text \<open>
  The tool does not look at the text: whenever the document library, the embedder and
  the store accept what they are given, the call succeeds and reports the number of
  chunks the library produced.
\<close>

lemma addDocument_succeeds:
  assumes "chunk_document env context = Inr (chunks, docMetadata)"
      and "embedMany env (map chunk_text chunks) = Inr vs"
      and "fst (upsert env (snd (createIndex env st knowledge_base))
                  (store_args env docMetadata chunks vs)) = None"
  shows "embedded (fst (addDocument env st context))"
    and "chunksCreated (fst (addDocument env st context)) = length chunks"
  using assms
  by (auto simp add: addDocument_def addDocument_try_def Let_def
      split: prod.splits option.splits)

text \<open>
  C7. With a document library that yields no chunk for the empty text, and an embedder
  and a store that accept the empty batch, the call with the empty text succeeds:
  \<open>embedded = true\<close>, \<open>chunksCreated = 0\<close>, after an upsert of no entries. Nothing is
  rejected, where the add-document route refuses an empty text before it reaches the
  tool.
\<close>

theorem empty_text_accepted:
  "embedded (fst (addDocument double_env Map.empty add_empty)) = True
   \<and> chunksCreated (fst (addDocument double_env Map.empty add_empty)) = 0
   \<and> message (fst (addDocument double_env Map.empty add_empty))
       = ''Successfully processed document into 0 chunks and stored embeddings in vector database.''
   \<and> filter is_upsert (snd (snd (addDocument double_env Map.empty add_empty)))
       = [EvUpsert \<lparr> up_indexName = ''knowledge-base'', up_vectors = [], up_metadata = [],
                     up_ids = [] \<rparr>]"
  by (simp add: addDocument_def addDocument_try_def chunk_document_def chunk_event_def
      double_env_def add_empty_def chunkMetadata_def
      spec_createIndex_def double_upsert_def knowledge_base_def store_args_def
      showNat.simps digit_def)

section \<open>Index creation\<close>

lemma spec_createIndex_again:
  "spec_createIndex (snd (spec_createIndex st p)) p
     = (Some (Error ''IndexAlreadyExists''), snd (spec_createIndex st p))"
  by (simp add: spec_createIndex_def split: option.splits)

lemma spec_createIndex_repeat:
  "((\<lambda>s. snd (spec_createIndex s p)) ^^ Suc n) st = snd (spec_createIndex st p)"
  by (induction n) (simp_all add: spec_createIndex_again)

lemma spec_createIndex_existing:
  "st (indexName p) \<noteq> None \<Longrightarrow> snd (spec_createIndex st p) = st"
  by (auto simp: spec_createIndex_def)

lemma createIndex_update_simps:
  "chunk_document (env\<lparr>createIndex := f\<rparr>) context = chunk_document env context"
  "chunk_event (env\<lparr>createIndex := f\<rparr>) context = chunk_event env context"
  "document_id (env\<lparr>createIndex := f\<rparr>) docMetadata = document_id env docMetadata"
  "store_args (env\<lparr>createIndex := f\<rparr>) docMetadata chunks vs
     = store_args env docMetadata chunks vs"
  by (simp_all add: chunk_document_def document_metadata_def chunk_event_def store_args_def
      chunkMetadata_def document_id_def)

lemma createIndex_error_dropped:
  "addDocument (env\<lparr>createIndex := \<lambda>s q. (Some err, snd (createIndex env s q))\<rparr>) st context
     = addDocument env st context"
proof (cases "chunk_document env context")
  case (Inl e)
  then show ?thesis
    by (simp add: addDocument_def addDocument_try_def createIndex_update_simps)
next
  case (Inr r)
  obtain chunks docMetadata where r: "r = (chunks, docMetadata)"
    by (cases r)
  show ?thesis
  proof (cases "embedMany env (map chunk_text chunks)")
    case (Inl e)
    with Inr r show ?thesis
      by (simp add: addDocument_def addDocument_try_def createIndex_update_simps)
  next
    case vs: (Inr vs)
    with Inr r show ?thesis
      by (simp add: addDocument_def addDocument_try_def createIndex_update_simps Let_def
          split: prod.splits option.splits)
  qed
qed

text \<open>
  C8. On the reference store, any number of \<open>createIndex\<close> calls with the same
  parameters leaves the store that the first call left; a call on a store that has the
  index reports \<open>IndexAlreadyExists\<close> and changes nothing. In \<open>addDocument\<close> an error
  thrown by \<open>createIndex\<close> is dropped: the result, the store and the calls are those of
  the run in which \<open>createIndex\<close> leaves the same store without an error.
\<close>

theorem createIndex_idempotent:
  "((\<lambda>s. snd (spec_createIndex s p)) ^^ Suc n) st = snd (spec_createIndex st p)
   \<and> spec_createIndex (snd (spec_createIndex st p)) p
       = (Some (Error ''IndexAlreadyExists''), snd (spec_createIndex st p))
   \<and> (st (indexName p) \<noteq> None \<longrightarrow> snd (spec_createIndex st p) = st)
   \<and> addDocument (env\<lparr>createIndex := \<lambda>s q. (Some err, snd (createIndex env s q))\<rparr>) st' context
       = addDocument env st' context"
proof (intro conjI impI)
  show "((\<lambda>s. snd (spec_createIndex s p)) ^^ Suc n) st = snd (spec_createIndex st p)"
    by (rule spec_createIndex_repeat)
  show "spec_createIndex (snd (spec_createIndex st p)) p
          = (Some (Error ''IndexAlreadyExists''), snd (spec_createIndex st p))"
    by (rule spec_createIndex_again)
  show "snd (spec_createIndex st p) = st" if "st (indexName p) \<noteq> None"
    using that by (rule spec_createIndex_existing)
  show "addDocument (env\<lparr>createIndex := \<lambda>s q. (Some err, snd (createIndex env s q))\<rparr>) st' context
          = addDocument env st' context"
    by (rule createIndex_error_dropped)
qed

theorem createIndex_idempotent_witness:
  "snd (spec_createIndex (snd (spec_createIndex Map.empty knowledge_base)) knowledge_base)
     = snd (spec_createIndex Map.empty knowledge_base)
   \<and> snd (spec_createIndex Map.empty knowledge_base) ''knowledge-base''
     = Some \<lparr> ix_dimension = 768, ix_metric = ''cosine'', ix_entries = [] \<rparr>
   \<and> embedded (fst (addDocument
         (double_env\<lparr>createIndex :=
            \<lambda>s q. (Some (Error ''exists''), snd (createIndex double_env s q))\<rparr>)
         (snd (spec_createIndex Map.empty knowledge_base)) add_hello))"
proof -
  let ?st = "snd (spec_createIndex Map.empty knowledge_base)"
  have ex: "?st (indexName knowledge_base) \<noteq> None"
    by (simp add: spec_createIndex_def knowledge_base_def)
  have ok: "embedded (fst (addDocument double_env ?st add_hello))"
    by (simp add: addDocument_def addDocument_try_def chunk_document_def document_metadata_def
      caller_metadata_def double_env_def add_hello_def
      spec_createIndex_def double_upsert_def knowledge_base_def store_args_def)
  from createIndex_idempotent
         [of 0 knowledge_base ?st "Error ''exists''" double_env ?st add_hello] ex ok
  show ?thesis
    by (simp add: spec_createIndex_def knowledge_base_def)
qed

section \<open>Ingestion: one batched embedding call\<close>

text \<open>
  C9. In a call whose document was chunked into \<open>n\<close> chunks, the embedder is called
  exactly once, with the texts of the \<open>n\<close> chunks in order. When it returns, the one
  upsert is given the returned vectors as they are and \<open>n\<close> ids, the \<open>i\<close>-th being the
  document id followed by \<open>-chunk-\<close> and \<open>i\<close>, so that the \<open>i\<close>-th vector goes with the
  id of the \<open>i\<close>-th chunk; the store the call leaves is the store that this upsert left,
  applied to the store that \<open>createIndex\<close> left.
\<close>

theorem one_batched_embedding:
  assumes "chunk_document env context = Inr (chunks, docMetadata)"
  shows "filter is_embed (snd (snd (addDocument env st context)))
           = [EvEmbedMany (map chunk_text chunks)]
         \<and> (\<forall>vs. embedMany env (map chunk_text chunks) = Inr vs \<longrightarrow>
               filter is_upsert (snd (snd (addDocument env st context)))
                 = [EvUpsert (store_args env docMetadata chunks vs)]
               \<and> fst (snd (addDocument env st context))
                 = snd (upsert env (snd (createIndex env st knowledge_base))
                          (store_args env docMetadata chunks vs))
               \<and> up_vectors (store_args env docMetadata chunks vs) = vs
               \<and> length (up_ids (store_args env docMetadata chunks vs)) = length chunks
               \<and> (\<forall>i < length chunks.
                     up_ids (store_args env docMetadata chunks vs) ! i
                       = toString (document_id env docMetadata) @ ''-chunk-'' @ showNat i))"
proof -
  have ids: "up_ids (store_args env docMetadata chunks vs) ! i
               = toString (document_id env docMetadata) @ ''-chunk-'' @ showNat i"
    if "i < length chunks" for vs i
    using that by (simp add: store_args_def enumerate_from_nth chunk_id_def)
  have vecs: "up_vectors (store_args env docMetadata chunks vs) = vs" for vs
    by (simp add: store_args_def)
  have len: "length (up_ids (store_args env docMetadata chunks vs)) = length chunks" for vs
    by (simp add: store_args_def)
  have evs: "filter is_embed (snd (snd (addDocument env st context)))
               = [EvEmbedMany (map chunk_text chunks)]"
    by (simp add: addDocument_events [OF assms] chunk_event_def split: sum.splits)
  have ups: "filter is_upsert (snd (snd (addDocument env st context)))
               = [EvUpsert (store_args env docMetadata chunks vs)]"
    if "embedMany env (map chunk_text chunks) = Inr vs" for vs
    using that by (simp add: addDocument_events [OF assms] chunk_event_def)
  have sto: "fst (snd (addDocument env st context))
               = snd (upsert env (snd (createIndex env st knowledge_base))
                        (store_args env docMetadata chunks vs))"
    if "embedMany env (map chunk_text chunks) = Inr vs" for vs
    using that assms
    by (simp add: addDocument_def addDocument_try_def Let_def split: prod.splits option.splits)
  show ?thesis
    using ids vecs len evs ups sto by blast
qed

theorem one_batched_embedding_witness:
  "filter is_embed (snd (snd (addDocument double_env Map.empty add_hello)))
     = [EvEmbedMany [''hello'']]
   \<and> map_option (map (\<lambda>(i, v, m). (i, v)) \<circ> ix_entries)
        (fst (snd (addDocument double_env Map.empty add_hello)) ''knowledge-base'')
     = Some [(''doc-1700000000000-chunk-0'', [1, 0])]"
proof -
  let ?md = "document_metadata double_env add_hello"
  let ?c = "\<lparr> chunk_text = ''hello'', chunk_metadata = ?md \<rparr>"
  have h: "chunk_document double_env add_hello = Inr ([?c], [?md])"
    by (simp add: chunk_document_def double_env_def add_hello_def)
  have e: "embedMany double_env (map chunk_text [?c]) = Inr [[1, 0]]"
    by (simp add: double_env_def)
  have d: "toString (document_id double_env [?md]) = ''doc-1700000000000''"
    by (simp add: document_id_def first_id_def document_metadata_def or_else_def
        double_env_def showNat.simps digit_def)
  have z: "showNat 0 = ''0''"
    by (simp add: showNat.simps digit_def)
  have u: "map_option (map (\<lambda>(i, v, m). (i, v)) \<circ> ix_entries)
             (snd (upsert double_env (snd (createIndex double_env Map.empty knowledge_base))
                     (store_args double_env [?md] [?c] [[1, 0]])) ''knowledge-base'')
           = Some [(up_ids (store_args double_env [?md] [?c] [[1, 0]]) ! 0, [1, 0])]"
    by (simp add: double_env_def spec_createIndex_def double_upsert_def knowledge_base_def
        store_args_def chunkMetadata_def)
  from one_batched_embedding [OF h, of Map.empty] e d z u show ?thesis
    by simp
qed

section \<open>Rounding\<close>

lemma round_even_of_int [simp]: "round_even (of_int n) = n"
  by (simp add: round_even_def)

lemma round_even_bounds: "\<lfloor>r\<rfloor> \<le> round_even r \<and> round_even r \<le> \<lfloor>r\<rfloor> + 1"
  by (simp add: round_even_def Let_def)

lemma round_even_err: "\<bar>of_int (round_even r) - r\<bar> \<le> 1 / 2"
proof -
  have "of_int \<lfloor>r\<rfloor> \<le> r" "r < of_int \<lfloor>r\<rfloor> + 1"
    by linarith+
  then show ?thesis
    by (auto simp: round_even_def Let_def abs_le_iff)
qed

lemma floor_log2_bounds:
  assumes "0 < x"
  shows "2 powi \<lfloor>log 2 x\<rfloor> \<le> x" and "x < 2 powi (\<lfloor>log 2 x\<rfloor> + 1)"
proof -
  have "2 powr of_int \<lfloor>log 2 x\<rfloor> \<le> x \<and> x < 2 powr (of_int \<lfloor>log 2 x\<rfloor> + 1)"
    using floor_log_eq_powr_iff [of x 2 "\<lfloor>log 2 x\<rfloor>"] assms by simp
  moreover have "2 powr (of_int \<lfloor>log 2 x\<rfloor> + 1) = (2::real) powr of_int (\<lfloor>log 2 x\<rfloor> + 1)"
    by simp
  ultimately show "2 powi \<lfloor>log 2 x\<rfloor> \<le> x" and "x < 2 powi (\<lfloor>log 2 x\<rfloor> + 1)"
    by (simp_all only: powr_real_of_int' [of 2, simplified])
qed

lemma floor_log2_le:
  assumes "0 < x" "x < 2 powi k"
  shows "\<lfloor>log 2 x\<rfloor> < k"
proof (rule ccontr)
  assume "\<not> \<lfloor>log 2 x\<rfloor> < k"
  then have "k \<le> \<lfloor>log 2 x\<rfloor>" by simp
  then have "(2::real) powi k \<le> 2 powi \<lfloor>log 2 x\<rfloor>"
    by (intro power_int_increasing) auto
  with floor_log2_bounds(1) [OF assms(1)] assms(2) show False by simp
qed

lemma floor_log2_ge:
  assumes "2 powi k \<le> x"
  shows "k \<le> \<lfloor>log 2 x\<rfloor>"
proof (rule ccontr)
  have "0 < (2::real) powi k" by simp
  with assms have x: "0 < x" by linarith
  assume "\<not> k \<le> \<lfloor>log 2 x\<rfloor>"
  then have "\<lfloor>log 2 x\<rfloor> + 1 \<le> k" by simp
  then have "(2::real) powi (\<lfloor>log 2 x\<rfloor> + 1) \<le> 2 powi k"
    by (intro power_int_increasing) auto
  with floor_log2_bounds(2) [OF x] assms show False by simp
qed


lemma ulp_exp_ge: "- 1074 \<le> ulp_exp x"
  by (simp add: ulp_exp_def)

lemma two_powi_pos [simp]: "0 < (2::real) powi k"
  by simp

lemma fl_rnd:
  "fl x = (if x = 0 then Num 0
           else if 2 ^ 1024 \<le> \<bar>rnd x\<bar> then (if 0 < x then PosInf else NegInf)
           else Num (rnd x))"
  by (simp add: fl_def)

lemma rnd_err: "\<bar>rnd x - x\<bar> \<le> 2 powi ulp_exp x / 2"
proof -
  let ?u = "2 powi ulp_exp x :: real"
  have "rnd x - x = (of_int (round_even (x / ?u)) - x / ?u) * ?u"
    by (simp add: rnd_def field_simps)
  then have "\<bar>rnd x - x\<bar> = \<bar>of_int (round_even (x / ?u)) - x / ?u\<bar> * ?u"
    by (simp add: abs_mult)
  also have "\<dots> \<le> 1 / 2 * ?u"
    by (intro mult_right_mono round_even_err) simp
  finally show ?thesis by simp
qed

lemma rnd_exact:
  assumes "x = of_int m * 2 powi e" and "ulp_exp x \<le> e"
  shows "rnd x = x"
proof -
  define u where "u = ulp_exp x"
  define N where "N = m * 2 ^ nat (e - u)"
  have "(2::real) powi e = 2 powi (e - u) * 2 powi u"
    by (simp flip: power_int_add)
  moreover have "(2::real) powi (e - u) = of_int (2 ^ nat (e - u))"
    using assms(2) by (simp add: power_int_def u_def)
  ultimately have x: "x = of_int N * 2 powi u"
    by (simp add: assms(1) N_def)
  then have "x / 2 powi u = of_int N"
    by simp
  then have "round_even (x / 2 powi u) = N"
    by (simp only: round_even_of_int)
  then have "rnd x = of_int N * 2 powi u"
    by (simp add: rnd_def u_def)
  with x show ?thesis by simp
qed

lemma ulp_exp_le:
  assumes "x \<noteq> 0" "\<bar>x\<bar> < 2 powi (e + 53)" "- 1074 \<le> e"
  shows "ulp_exp x \<le> e"
proof -
  have "\<lfloor>log 2 \<bar>x\<bar>\<rfloor> < e + 53"
    using assms by (intro floor_log2_le) auto
  with assms(3) show ?thesis
    by (simp add: ulp_exp_def)
qed

lemma fl_representable:
  assumes "x = of_int m * 2 powi e" and "\<bar>m\<bar> < 2 ^ 53" and "- 1074 \<le> e"
  shows "fl x = (if 2 ^ 1024 \<le> \<bar>x\<bar> then (if 0 < x then PosInf else NegInf) else Num x)"
proof (cases "x = 0")
  case True
  then show ?thesis by (simp add: fl_def)
next
  case False
  have "\<bar>x\<bar> = \<bar>of_int m\<bar> * 2 powi e"
    by (simp add: assms(1) abs_mult)
  also have "\<dots> < 2 ^ 53 * 2 powi e"
  proof (rule mult_strict_right_mono)
    have "\<bar>of_int m :: real\<bar> = of_int \<bar>m\<bar>" by simp
    also have "\<dots> < of_int (2 ^ 53)"
      using assms(2) by (simp only: of_int_less_iff)
    finally show "\<bar>of_int m :: real\<bar> < 2 ^ 53" by simp
  qed simp
  also have "\<dots> = 2 powi (e + 53)"
    by (simp add: power_int_add)
  finally have "ulp_exp x \<le> e"
    using False assms(3) by (intro ulp_exp_le)
  with assms(1) have "rnd x = x"
    by (rule rnd_exact)
  with False show ?thesis
    by (simp add: fl_rnd)
qed

lemma fl_err:
  assumes lo: "1 / 2 ^ 1022 \<le> \<bar>x\<bar>" and hi: "\<bar>x\<bar> \<le> 2 ^ 1023"
  shows "\<exists>y. fl x = Num y \<and> \<bar>y - x\<bar> \<le> \<bar>x\<bar> / 2 ^ 53"
proof -
  have x0: "x \<noteq> 0"
    using lo by auto
  let ?k = "\<lfloor>log 2 \<bar>x\<bar>\<rfloor>"
  have "(2::real) powi (- 1022) = 1 / 2 ^ 1022"
    by (simp add: power_int_minus field_simps)
  with lo have "2 powi (- 1022) \<le> \<bar>x\<bar>" by simp
  then have k: "- 1022 \<le> ?k"
    by (rule floor_log2_ge)
  then have "- 1074 \<le> ?k - 52" by linarith
  then have u: "ulp_exp x = ?k - 52"
    unfolding ulp_exp_def by (rule max_absorb1)
  have "2 powi ulp_exp x / 2 = (2::real) powi ?k / 2 ^ 53"
    by (simp add: u power_int_diff)
  also have "\<dots> \<le> \<bar>x\<bar> / 2 ^ 53"
    using floor_log2_bounds(1) [of "\<bar>x\<bar>"] x0 by (simp add: divide_right_mono)
  finally have e: "\<bar>rnd x - x\<bar> \<le> \<bar>x\<bar> / 2 ^ 53"
    using rnd_err [of x] by linarith
  have "\<bar>rnd x\<bar> \<le> \<bar>x\<bar> + \<bar>x\<bar> / 2 ^ 53"
    using e by linarith
  also have "\<dots> \<le> 2 ^ 1023 + 2 ^ 1023 / 2 ^ 53"
    using hi by (intro add_mono divide_right_mono) auto
  also have "\<dots> < (2::real) ^ 1024"
    by simp
  finally have "\<not> 2 ^ 1024 \<le> \<bar>rnd x\<bar>" by simp
  with x0 e show ?thesis
    by (simp add: fl_rnd)
qed

lemma two_powi_grid:
  assumes "- 1074 \<le> u"
  shows "(2::real) powi u = of_int (2 ^ nat (u + 1074)) / 2 ^ 1074"
proof -
  define P where "P = (2::real) ^ 1074"
  have P: "0 < P" "(2::real) powi 1074 = P"
    by (simp_all add: P_def)
  have "(2::real) powi (u + 1074) = 2 powi u * 2 powi 1074"
    by (rule power_int_add) simp
  moreover have "(2::real) powi (u + 1074) = of_int (2 ^ nat (u + 1074))"
    using assms by (simp add: power_int_def)
  ultimately have "of_int (2 ^ nat (u + 1074)) = 2 powi u * P"
    using P by simp
  with P show ?thesis
    unfolding P_def [symmetric] by (simp add: field_simps)
qed

lemma fl_grid:
  assumes "fl x = Num y"
  shows "\<exists>n::int. y = of_int n / 2 ^ 1074"
proof (cases "x = 0")
  case True
  with assms have "y = of_int 0 / 2 ^ 1074" by (simp add: fl_def)
  then show ?thesis by blast
next
  case False
  with assms have y: "y = rnd x"
    by (simp add: fl_rnd split: if_splits)
  have "y = of_int (round_even (x / 2 powi ulp_exp x) * 2 ^ nat (ulp_exp x + 1074)) / 2 ^ 1074"
    unfolding y rnd_def by (subst two_powi_grid [OF ulp_exp_ge]) simp
  then show ?thesis by blast
qed

lemma fl_not_NaN [simp]: "fl x \<noteq> NaN"
  by (simp add: fl_rnd)


lemma round_even_small: "\<bar>r\<bar> \<le> 1 / 2 \<Longrightarrow> round_even r = 0"
proof -
  assume r: "\<bar>r\<bar> \<le> 1 / 2"
  consider "0 \<le> r" | "r < 0" by linarith
  then show ?thesis
  proof cases
    case 1
    with r have "\<lfloor>r\<rfloor> = 0" by (simp add: floor_eq_iff)
    with r 1 show ?thesis by (auto simp: round_even_def)
  next
    case 2
    with r have "\<lfloor>r\<rfloor> = - 1" by (simp add: floor_eq_iff)
    with r 2 show ?thesis by (auto simp: round_even_def Let_def)
  qed
qed

lemma fl_underflow:
  assumes "\<bar>x\<bar> \<le> 1 / 2 ^ 1075"
  shows "fl x = Num 0"
proof (cases "x = 0")
  case True
  then show ?thesis by (simp add: fl_def)
next
  case False
  define P where "P = (2::real) ^ 1074"
  have P: "0 < P" "(2::real) powi (- 1074) = 1 / P" "(2::real) ^ 1075 = 2 * P"
    by (simp_all add: P_def power_int_minus field_simps)
  have "(2::real) powi (- 1022) = 1 / 2 ^ 1022"
    by (simp add: power_int_minus field_simps)
  moreover have "1 / (2::real) ^ 1075 < 1 / 2 ^ 1022"
    by (intro divide_strict_left_mono power_strict_increasing) auto
  ultimately have "\<bar>x\<bar> < 2 powi (- 1022)"
    using assms by linarith
  then have "\<lfloor>log 2 \<bar>x\<bar>\<rfloor> < - 1022"
    using False by (intro floor_log2_le) auto
  then have "\<lfloor>log 2 \<bar>x\<bar>\<rfloor> - 52 \<le> - 1074" by linarith
  then have u: "ulp_exp x = - 1074"
    unfolding ulp_exp_def by (rule max_absorb2)
  have "\<bar>x / 2 powi (- 1074)\<bar> = \<bar>x\<bar> * P"
    using P by (simp add: abs_mult)
  also have "\<dots> \<le> 1 / (2 * P) * P"
    using assms P by (intro mult_right_mono) simp_all
  also have "\<dots> = 1 / 2"
    using P by simp
  finally have "round_even (x / 2 powi (- 1074)) = 0"
    by (rule round_even_small)
  then have "rnd x = 0"
    by (simp add: rnd_def u)
  with False show ?thesis
    by (simp add: fl_rnd)
qed

lemma rnd_nonneg: "0 \<le> x \<Longrightarrow> 0 \<le> rnd x"
proof -
  assume "0 \<le> x"
  then have "0 \<le> x / 2 powi ulp_exp x" by simp
  then have "0 \<le> \<lfloor>x / 2 powi ulp_exp x\<rfloor>" by simp
  with round_even_bounds [of "x / 2 powi ulp_exp x"]
  have "0 \<le> round_even (x / 2 powi ulp_exp x)" by linarith
  then show ?thesis by (simp add: rnd_def)
qed

lemma rnd_nonpos: "x \<le> 0 \<Longrightarrow> rnd x \<le> 0"
proof (cases "x = 0")
  case True
  have "round_even 0 = 0"
    using round_even_of_int [of 0] by simp
  with True show ?thesis by (simp add: rnd_def)
next
  case False
  assume "x \<le> 0"
  with False have "x / 2 powi ulp_exp x < 0"
    by (simp add: divide_neg_pos)
  then have "\<lfloor>x / 2 powi ulp_exp x\<rfloor> < 0"
    by (simp add: floor_less_iff)
  with round_even_bounds [of "x / 2 powi ulp_exp x"]
  have "round_even (x / 2 powi ulp_exp x) \<le> 0" by linarith
  then show ?thesis
    by (simp add: rnd_def mult_le_0_iff)
qed

lemma rnd_pos:
  assumes "1 / 2 ^ 1074 \<le> x"
  shows "0 < rnd x"
proof -
  have "(2::real) powi (- 1074) = 1 / 2 ^ 1074"
    by (simp add: power_int_minus field_simps)
  with assms have lo: "2 powi (- 1074) \<le> x" by simp
  have x: "0 < x"
    using lo two_powi_pos [of "- 1074"] by linarith
  let ?k = "\<lfloor>log 2 x\<rfloor>"
  from lo have "- 1074 \<le> ?k" by (rule floor_log2_ge)
  then have "ulp_exp x \<le> ?k"
    using x by (simp add: ulp_exp_def)
  then have "(2::real) powi ulp_exp x \<le> 2 powi ?k"
    by (intro power_int_increasing) auto
  also have "\<dots> \<le> x"
    using x by (rule floor_log2_bounds)
  finally have "1 \<le> x / 2 powi ulp_exp x"
    by simp
  then have "1 \<le> \<lfloor>x / 2 powi ulp_exp x\<rfloor>"
    by (simp add: le_floor_iff)
  with round_even_bounds [of "x / 2 powi ulp_exp x"]
  have "0 < round_even (x / 2 powi ulp_exp x)" by linarith
  then show ?thesis
    by (simp add: rnd_def)
qed

section \<open>Arithmetic on rounded numbers\<close>

lemma js_add_NaN_right [simp]: "js_add x NaN = NaN"
  by (cases x) simp_all

lemma js_mul_NaN_right [simp]: "js_mul x NaN = NaN"
  by (cases x) simp_all

lemma fl_zero [simp]: "fl 0 = Num 0"
  by (simp add: fl_def)

lemma fl_on_grid: "on_grid (fl x)"
  using fl_grid [of x] by (cases "fl x") auto

lemma zero_on_grid: "on_grid (Num 0)"
  using fl_on_grid [of 0] by simp

lemma js_div_on_grid: "on_grid (js_div p q)"
  by (cases p; cases q) (auto simp: fl_on_grid zero_on_grid)

lemma cosineSimilarity_on_grid: "on_grid (cosineSimilarity a b)"
  by (simp add: cosineSimilarity_def js_div_on_grid)

lemma fl_positive:
  assumes "1 / 2 ^ 1074 \<le> d"
  shows "js_gt (fl d) (Num 0)"
proof -
  have "(0::real) < 1 / 2 ^ 1074" by simp
  with assms have "0 < d" by linarith
  with rnd_pos [OF assms] show ?thesis
    by (simp add: fl_rnd)
qed

lemma fl_not_positive:
  assumes "d \<le> 0"
  shows "\<not> js_gt (fl d) (Num 0)"
  using rnd_nonpos [OF assms] assms by (simp add: fl_rnd)

lemma sub_positive_iff:
  assumes "on_grid (Num x)" "on_grid (Num y)"
  shows "js_gt (js_sub (Num y) (Num x)) (Num 0) \<longleftrightarrow> x < y"
proof (cases "x < y")
  case True
  define P where "P = (2::real) ^ 1074"
  have P: "0 < P" by (simp add: P_def)
  from assms obtain n m :: int where x: "x = of_int n / P" and y: "y = of_int m / P"
    by (auto simp: P_def)
  from True x y P have "of_int n < (of_int m :: real)"
    by (simp add: divide_less_cancel)
  then have "n < m" by simp
  then have "1 \<le> m - n" by simp
  then have "(1::real) \<le> of_int (m - n)"
    by (simp only: of_int_1_le_iff)
  then have "1 / P \<le> of_int (m - n) / P"
    using P by (intro divide_right_mono) simp_all
  also have "\<dots> = y - x"
    by (simp add: x y diff_divide_distrib)
  finally have "js_gt (fl (y - x)) (Num 0)"
    unfolding P_def by (rule fl_positive)
  with True show ?thesis by simp
next
  case False
  then have "y - x \<le> 0" by simp
  then have "\<not> js_gt (fl (y - x)) (Num 0)"
    by (rule fl_not_positive)
  with False show ?thesis by simp
qed

lemma compare_rank_key:
  assumes "s \<noteq> NaN" "t \<noteq> NaN" "on_grid s" "on_grid t"
  shows "js_gt (js_sub t s) (Num 0) \<longleftrightarrow> rank_key t < rank_key s"
proof (cases s; cases t)
  fix x y
  assume "s = Num x" "t = Num y"
  with assms sub_positive_iff [of x y] show ?thesis
    by auto
qed (use assms in auto)

lemma js_ge_rank_key:
  assumes "s \<noteq> NaN" "t \<noteq> NaN"
  shows "js_ge s t \<longleftrightarrow> rank_key s \<le> rank_key t"
  using assms by (cases s; cases t) auto

lemma rank_key_inj: "rank_key s = rank_key t \<longleftrightarrow> s = t"
  by (cases s; cases t) auto

lemma fl_dyadic:
  assumes "\<bar>m\<bar> < 2 ^ 53" and "- 1074 \<le> e" and "e \<le> 970"
  shows "fl (of_int m * 2 powi e) = Num (of_int m * 2 powi e)"
proof -
  let ?x = "of_int m * 2 powi e :: real"
  have "\<bar>?x\<bar> = of_int \<bar>m\<bar> * 2 powi e"
    by (simp add: abs_mult)
  also have "\<dots> \<le> of_int (2 ^ 53) * 2 powi 970"
    using assms by (intro mult_mono power_int_increasing) (simp_all only: of_int_le_iff, simp_all)
  also have "\<dots> = 2 powi 1023"
    by (simp add: power_int_def flip: power_add)
  also have "\<dots> < 2 ^ 1024"
    by simp
  finally have "\<not> 2 ^ 1024 \<le> \<bar>?x\<bar>" by simp
  with fl_representable [OF refl assms(1,2)] show ?thesis
    by simp
qed

lemma fl_int: "\<bar>n\<bar> < 2 ^ 53 \<Longrightarrow> fl (of_int n) = Num (of_int n)"
  using fl_dyadic [of n 0] by simp

lemma fl_small [simp]:
  "fl 1 = Num 1" "fl 2 = Num 2" "fl 3 = Num 3" "fl 4 = Num 4"
  "fl 9 = Num 9" "fl 16 = Num 16" "fl 25 = Num 25" "fl (1 / 2) = Num (1 / 2)"
  using fl_int [of 1] fl_int [of 2] fl_int [of 3] fl_int [of 4]
    fl_int [of 9] fl_int [of 16] fl_int [of 25] fl_dyadic [of 1 "- 1"]
  by (simp_all add: power_int_minus field_simps)

lemma reduce_self:
  "reduce (\<lambda>sum a_i i. js_add sum (js_mul (Num a_i) (at_index (pre @ a) i))) a (length pre) acc
     = reduce (\<lambda>sum a_i i. js_add sum (js_mul (Num a_i) (Num a_i))) a (length pre) acc"
proof (induction a arbitrary: pre acc)
  case Nil
  show ?case by simp
next
  case (Cons x a)
  have "at_index (pre @ x # a) (length pre) = Num x"
    by (simp add: at_index_def)
  with Cons.IH [of "pre @ [x]"] show ?case
    by simp
qed

lemma magnitude_self: "magnitude v = js_sqrt (dotProduct v v)"
  using reduce_self [of "[]" v "Num 0"] by (simp add: magnitude_def dotProduct_def)

lemma fl_rel:
  assumes "1 / 2 ^ 1022 \<le> x" and "x \<le> 2 ^ 1023"
  shows "\<exists>y. fl x = Num y \<and> (1 - 1 / 2 ^ 53) * x \<le> y \<and> y \<le> (1 + 1 / 2 ^ 53) * x"
proof -
  have "(0::real) < 1 / 2 ^ 1022" by simp
  with assms have x: "0 < x" by linarith
  with assms have "1 / 2 ^ 1022 \<le> \<bar>x\<bar>" "\<bar>x\<bar> \<le> 2 ^ 1023" by simp_all
  from fl_err [OF this] obtain y where y: "fl x = Num y" "\<bar>y - x\<bar> \<le> \<bar>x\<bar> / 2 ^ 53"
    by blast
  define u where "u = (1::real) / 2 ^ 53"
  from y(2) x have "\<bar>y - x\<bar> \<le> x * u"
    by (simp add: u_def)
  then have "(1 - u) * x \<le> y \<and> y \<le> (1 + u) * x"
    by (simp add: abs_le_iff algebra_simps)
  with y(1) show ?thesis
    unfolding u_def by blast
qed

lemma fl_overflow:
  assumes "2 ^ 1024 \<le> x"
  shows "fl x = PosInf"
proof -
  have "(0::real) < 2 ^ 1024" by simp
  with assms have x: "0 < x" by linarith
  let ?k = "\<lfloor>log 2 x\<rfloor>"
  have "(2::real) powi 1024 = 2 ^ 1024" by simp
  with assms have "2 powi 1024 \<le> x" by simp
  then have k: "1024 \<le> ?k" by (rule floor_log2_ge)
  then have "- 1074 \<le> ?k - 52" by linarith
  then have u: "ulp_exp x = ?k - 52"
    using x unfolding ulp_exp_def by (simp add: max_absorb1)
  have "(2::real) powi ?k = 2 powi 52 * 2 powi (?k - 52)"
    using power_int_add [of "2::real" 52 "?k - 52"] by simp
  then have "2 powi 52 * 2 powi (?k - 52) \<le> x"
    using floor_log2_bounds(1) [OF x] by simp
  then have "2 powi 52 \<le> x / 2 powi (?k - 52)"
    by (simp add: field_simps)
  then have "of_int (2 ^ 52) \<le> x / 2 powi (?k - 52)"
    by simp
  then have "2 ^ 52 \<le> \<lfloor>x / 2 powi (?k - 52)\<rfloor>"
    by (simp only: le_floor_iff)
  with round_even_bounds [of "x / 2 powi (?k - 52)"]
  have "2 ^ 52 \<le> round_even (x / 2 powi (?k - 52))" by linarith
  then have "(of_int (2 ^ 52) :: real) \<le> of_int (round_even (x / 2 powi (?k - 52)))"
    by (simp only: of_int_le_iff)
  then have "of_int (2 ^ 52) * 2 powi (?k - 52) \<le> rnd x"
    unfolding rnd_def u by (intro mult_right_mono) simp_all
  moreover have "of_int (2 ^ 52) * 2 powi (?k - 52) = (2::real) powi ?k"
    using power_int_add [of "2::real" 52 "?k - 52"] by simp
  moreover have "(2::real) powi 1024 \<le> 2 powi ?k"
    using k by (intro power_int_increasing) simp_all
  ultimately have "2 ^ 1024 \<le> rnd x"
    by simp
  then have "2 ^ 1024 \<le> \<bar>rnd x\<bar>" by linarith
  with x show ?thesis
    by (simp add: fl_rnd)
qed


lemma threshold: "\<exists>t. fl (1 / 10) = Num t \<and> 0 < t \<and> t < 1 / 2"
proof -
  have "(1::real) / 2 ^ 1022 \<le> 1 / 10" "(1::real) / 10 \<le> 2 ^ 1023"
    by simp_all
  from fl_rel [OF this] show ?thesis
    by auto
qed

section \<open>Ranking\<close>

lemma insert_sorted_insort_key:
  assumes "rankable x" and "\<forall>y\<in>set ys. rankable y"
  shows "insert_sorted compareFn x ys = insort_key (\<lambda>r. rank_key (vr_score r)) x ys"
  using assms
proof (induction ys)
  case Nil
  then show ?case by simp
next
  case (Cons y ys)
  have "js_gt (compareFn x y) (Num 0) \<longleftrightarrow> rank_key (vr_score y) < rank_key (vr_score x)"
    unfolding compareFn_def using Cons.prems
    by (intro compare_rank_key) (simp_all add: rankable_def)
  with Cons show ?case
    by (auto simp: not_le)
qed

lemma js_sort_sort_key:
  assumes "\<forall>y\<in>set xs. rankable y"
  shows "js_sort compareFn xs = sort_key (\<lambda>r. rank_key (vr_score r)) xs"
  using assms
proof (induction xs)
  case Nil
  then show ?case by (simp add: js_sort_def)
next
  case (Cons x xs)
  then have ih: "js_sort compareFn xs = sort_key (\<lambda>r. rank_key (vr_score r)) xs"
    by simp
  have "js_sort compareFn (x # xs) = insert_sorted compareFn x (js_sort compareFn xs)"
    by (simp add: js_sort_def)
  also have "\<dots> = insort_key (\<lambda>r. rank_key (vr_score r)) x
                      (sort_key (\<lambda>r. rank_key (vr_score r)) xs)"
    unfolding ih using Cons.prems by (intro insert_sorted_insort_key) auto
  finally show ?case
    by (simp add: sort_key_def)
qed

lemma prefix_filter_take: "prefix (filter P (take k xs)) (filter P xs)"
  by (metis append_take_drop_id filter_append prefixI)

lemma prefix_filter_const:
  assumes "\<forall>x\<in>set xs. \<forall>y\<in>set xs. Q x = Q y"
  shows "filter Q xs = xs \<or> filter Q xs = []"
proof (cases xs)
  case Nil
  then show ?thesis by simp
next
  case (Cons x xs')
  show ?thesis
  proof (cases "Q x")
    case True
    with assms Cons have "\<forall>y\<in>set xs. Q y" by auto
    then show ?thesis by simp
  next
    case False
    with assms Cons have "\<forall>y\<in>set xs. \<not> Q y" by auto
    then show ?thesis by simp
  qed
qed

lemma results_rankable:
  assumes "\<forall>d\<in>set documents. cosineSimilarity q (doc_embedding d) \<noteq> NaN"
  shows "\<forall>r\<in>set (map (to_result q) documents). rankable r"
  using assms by (auto simp: to_result_def rankable_def cosineSimilarity_on_grid)

lemma query_sort_key:
  assumes "0 \<le> topK"
      and "\<forall>r\<in>set (map (to_result q) documents). rankable r"
  shows "query documents q topK =
           filter (\<lambda>result. js_gt (vr_score result) (fl (1 / 10)))
             (take (nat topK) (sort_key (\<lambda>r. rank_key (vr_score r)) (map (to_result q) documents)))"
  using assms by (simp add: query_def slice0_def js_sort_sort_key)

lemma stable_by_score:
  "filter (\<lambda>r. vr_score r = s) (sort_key (\<lambda>r. rank_key (vr_score r)) rs)
     = filter (\<lambda>r. vr_score r = s) rs"
proof -
  have "filter (\<lambda>r. rank_key (vr_score r) = rank_key s) (sort_key (\<lambda>r. rank_key (vr_score r)) rs)
          = filter (\<lambda>r. rank_key (vr_score r) = rank_key s) rs"
    by (rule sort_key_stable)
  then show ?thesis
    by (simp only: rank_key_inj)
qed


text \<open>
  C4, amended. For a limit \<open>topK \<ge> 0\<close> and a store in which no score against the query
  vector is NaN, the result of \<open>query\<close> has at most \<open>topK\<close> entries, each score is
  \<open>>=\<close> every later one, and for every score value the entries of the result with that
  score are an initial part of the stored entries with that score, in insertion order.
\<close>

theorem query_ranked:
  assumes "0 \<le> topK"
      and "\<forall>d\<in>set documents. cosineSimilarity queryEmbedding (doc_embedding d) \<noteq> NaN"
  shows "length (query documents queryEmbedding topK) \<le> nat topK
       \<and> sorted_wrt (\<lambda>x y. js_ge (vr_score x) (vr_score y))
           (query documents queryEmbedding topK)
       \<and> (\<forall>s. prefix (filter (\<lambda>r. vr_score r = s) (query documents queryEmbedding topK))
                     (filter (\<lambda>r. vr_score r = s)
                        (map (to_result queryEmbedding) documents)))"
proof -
  let ?rs = "map (to_result queryEmbedding) documents"
  let ?f = "\<lambda>r. rank_key (vr_score r)"
  let ?P = "\<lambda>result. js_gt (vr_score result) (fl (1 / 10))"
  let ?L = "sort_key ?f ?rs"
  let ?k = "nat topK"
  have def: "\<forall>r\<in>set ?rs. rankable r"
    using assms(2) by (rule results_rankable)
  have q: "query documents queryEmbedding topK = filter ?P (take ?k ?L)"
    using assms(1) def by (rule query_sort_key)
  have len: "length (filter ?P (take ?k ?L)) \<le> ?k"
    by (rule order_trans [OF length_filter_le]) simp
  have sub: "set (filter ?P (take ?k ?L)) \<subseteq> set ?rs"
    using set_take_subset [of ?k ?L] by auto
  have "sorted (map ?f ?L)"
    by (rule sorted_sort_key)
  then have "sorted_wrt (\<lambda>x y. ?f x \<le> ?f y) ?L"
    by (simp add: sorted_map)
  then have "sorted_wrt (\<lambda>x y. ?f x \<le> ?f y) (take ?k ?L)"
    by (rule sorted_wrt_take)
  then have "sorted_wrt (\<lambda>x y. ?f x \<le> ?f y) (filter ?P (take ?k ?L))"
    by (rule sorted_wrt_filter)
  then have srt: "sorted_wrt (\<lambda>x y. js_ge (vr_score x) (vr_score y)) (filter ?P (take ?k ?L))"
  proof (rule sorted_wrt_mono_rel [rotated])
    fix x y
    assume "x \<in> set (filter ?P (take ?k ?L))" "y \<in> set (filter ?P (take ?k ?L))"
      and le: "?f x \<le> ?f y"
    with sub def have "vr_score x \<noteq> NaN" "vr_score y \<noteq> NaN"
      by (auto simp: rankable_def)
    with le show "js_ge (vr_score x) (vr_score y)"
      by (simp add: js_ge_rank_key)
  qed
  have stab: "prefix (filter (\<lambda>r. vr_score r = s) (filter ?P (take ?k ?L)))
                     (filter (\<lambda>r. vr_score r = s) ?rs)" for s
  proof -
    let ?Q = "\<lambda>r. vr_score r = s"
    let ?M = "filter ?Q (take ?k ?L)"
    have c: "filter ?Q (filter ?P (take ?k ?L)) = filter ?P ?M"
      by (simp add: conj_commute)
    have "prefix ?M (filter ?Q ?L)"
      by (rule prefix_filter_take)
    then have m: "prefix ?M (filter ?Q ?rs)"
      by (simp only: stable_by_score)
    have "\<forall>x\<in>set ?M. \<forall>y\<in>set ?M. ?P x = ?P y"
      by simp
    then have "filter ?P ?M = ?M \<or> filter ?P ?M = []"
      by (rule prefix_filter_const)
    with m c show ?thesis
      by auto
  qed
  from q len srt stab show ?thesis
    by simp
qed

text \<open>Scores of the stored test vectors against the query vector \<open>[1, 1, 1, 1]\<close>.\<close>

lemma cos_half: "cosineSimilarity [1, 1, 1, 1] [1, 0, 0, 0] = Num (1 / 2)"
  by (simp add: cosineSimilarity_def dotProduct_def magnitude_def at_index_def)

lemma cos_zero: "cosineSimilarity [1, 1, 1, 1] [0, 0, 0, 0] = NaN"
  by (simp add: cosineSimilarity_def dotProduct_def magnitude_def at_index_def)

lemma cos_one: "cosineSimilarity [1, 1, 1, 1] [1, 1, 1, 1] = Num 1"
  by (simp add: cosineSimilarity_def dotProduct_def magnitude_def at_index_def)


text \<open>
  C4, as stated, fails. A stored zero vector has the score NaN, every comparison with
  it counts as a tie, and the sort leaves the score 0.5 before the score 1: the result
  is not in non-increasing order. With the limit \<open>-1\<close> and two stored entries the
  result has one entry.
\<close>

theorem query_unranked:
  "map vr_score (query [doc_a, doc_zero, doc_b] [1, 1, 1, 1] 5) = [Num (1 / 2), Num 1]
   \<and> \<not> js_ge (Num (1 / 2)) (Num 1)
   \<and> map vr_id (query [doc_b, doc_b] [1, 1, 1, 1] (- 1)) = [''b'']"
proof -
  from threshold obtain t where "fl (1 / 10) = Num t" "0 < t" "t < 1 / 2"
    by blast
  then show ?thesis
    by (simp add: query_def js_sort_def slice0_def to_result_def compareFn_def
        doc_a_def doc_zero_def doc_b_def cos_half cos_zero cos_one)
qed

theorem query_ranked_witness:
  "length (query [doc_a, doc_b] [1, 1, 1, 1] 1) \<le> 1
   \<and> sorted_wrt (\<lambda>x y. js_ge (vr_score x) (vr_score y)) (query [doc_a, doc_b] [1, 1, 1, 1] 1)
   \<and> prefix (filter (\<lambda>r. vr_score r = Num 1) (query [doc_a, doc_b] [1, 1, 1, 1] 1))
             (filter (\<lambda>r. vr_score r = Num 1) (map (to_result [1, 1, 1, 1]) [doc_a, doc_b]))"
proof -
  have h1: "(0::int) \<le> 1" by simp
  have h2: "\<forall>d\<in>set [doc_a, doc_b]. cosineSimilarity [1, 1, 1, 1] (doc_embedding d) \<noteq> NaN"
    by (simp add: doc_a_def doc_b_def cos_half cos_one)
  from query_ranked [OF h1 h2] show ?thesis
    by simp
qed


section \<open>Cosine similarity\<close>

lemma num1: "(1 + 1 / 2 ^ 53) / (1 - 1 / 2 ^ 53) ^ 3 \<le> (1::real) + 1 / 2 ^ 50"
  by (simp add: field_simps)

lemma num2: "(1::real) - 1 / 2 ^ 50 \<le> (1 - 1 / 2 ^ 53) / (1 + 1 / 2 ^ 53) ^ 3"
  by (simp add: field_simps)
lemma self_similarity_close:
  assumes D: "dotProduct v v = Num D" and lo: "1 / 2 ^ 1021 \<le> D" and hi: "D \<le> 2 ^ 1022"
  shows "\<exists>q. cosineSimilarity v v = Num q \<and> \<bar>q - 1\<bar> \<le> 1 / 2 ^ 50"
proof -
  define c1 where "c1 = (1::real) - 1 / 2 ^ 53"
  define c2 where "c2 = (1::real) + 1 / 2 ^ 53"
  have c: "0 < c1" "c1 \<le> 1" "1 \<le> c2" "1 / 2 \<le> c1 ^ 3" "c2 ^ 3 \<le> 2" "1 / 2 \<le> c1 ^ 2" "c2 ^ 2 \<le> 2"
    by (simp_all add: c1_def c2_def field_simps)
  have "(0::real) < 1 / 2 ^ 1021" by simp
  with lo have D0: "0 < D" by linarith
  define r where "r = sqrt D"
  have r0: "0 < r" and rr: "r * r = D"
    using D0 by (simp_all add: r_def)
  \<comment> \<open>the magnitude\<close>
  have "(1 / 2 ^ 1022) ^ 2 \<le> (1::real) / 2 ^ 1021"
    by (simp add: field_simps)
  with lo have "(1 / 2 ^ 1022) ^ 2 \<le> D" by linarith
  then have rlo: "1 / 2 ^ 1022 \<le> r"
    unfolding r_def by (rule real_le_rsqrt)
  have "(2::real) ^ 1022 \<le> (2 ^ 1023) ^ 2"
    by simp
  with hi have "D \<le> (2 ^ 1023) ^ 2" by linarith
  then have rhi: "r \<le> 2 ^ 1023"
    unfolding r_def by (intro real_le_lsqrt) simp_all
  from fl_rel [OF rlo rhi] obtain s where s: "fl r = Num s" "c1 * r \<le> s" "s \<le> c2 * r"
    unfolding c1_def c2_def by blast
  have m: "magnitude v = Num s"
    using D0 s(1) by (simp add: magnitude_self D r_def)
  have s0: "0 < s"
    using s(2) c(1) r0 by (smt (verit) mult_pos_pos)
  \<comment> \<open>the product of the magnitudes\<close>
  have cr0: "0 \<le> c1 * r"
    using c(1) r0 by simp
  have "(c1 * r) * (c1 * r) \<le> s * s"
    using s(2) s0 cr0 by (intro mult_mono) simp_all
  then have sslo: "c1 ^ 2 * D \<le> s * s"
    by (simp add: rr [symmetric] power2_eq_square algebra_simps)
  have "s * s \<le> (c2 * r) * (c2 * r)"
    using s(3) s0 by (intro mult_mono) simp_all
  then have sshi: "s * s \<le> c2 ^ 2 * D"
    by (simp add: rr [symmetric] power2_eq_square algebra_simps)
  have "1 / 2 ^ 1022 = 1 / 2 * (1 / (2::real) ^ 1021)"
    by simp
  also have "\<dots> \<le> c1 ^ 2 * D"
    using c(6) lo by (intro mult_mono) simp_all
  finally have plo: "1 / 2 ^ 1022 \<le> s * s"
    using sslo by linarith
  have "c2 ^ 2 * D \<le> 2 * 2 ^ 1022"
    using c(7) hi D0 by (intro mult_mono) simp_all
  then have phi: "s * s \<le> 2 ^ 1023"
    using sshi by simp
  from fl_rel [OF plo phi] obtain p where p: "fl (s * s) = Num p" "c1 * (s * s) \<le> p" "p \<le> c2 * (s * s)"
    unfolding c1_def c2_def by blast
  have "c1 * (c1 ^ 2 * D) \<le> c1 * (s * s)"
    using sslo c(1) by (intro mult_left_mono) simp_all
  with p(2) have p1: "c1 ^ 3 * D \<le> p"
    by (simp add: power3_eq_cube power2_eq_square algebra_simps)
  have "c2 * (s * s) \<le> c2 * (c2 ^ 2 * D)"
    using sshi c(3) by (intro mult_left_mono) simp_all
  with p(3) have p2: "p \<le> c2 ^ 3 * D"
    by (simp add: power3_eq_cube power2_eq_square algebra_simps)
  have p0: "0 < p"
    using p1 c(1) D0 by (smt (verit) mult_pos_pos zero_less_power)
  \<comment> \<open>the quotient\<close>
  define t where "t = D / p"
  have t1: "1 / c2 ^ 3 \<le> t"
  proof -
    have "0 < c2 ^ 3" using c(3) by simp
    then have "1 / c2 ^ 3 \<le> t \<longleftrightarrow> p \<le> c2 ^ 3 * D"
      using p0 by (simp add: t_def field_simps)
    with p2 show ?thesis by simp
  qed
  have t2: "t \<le> 1 / c1 ^ 3"
  proof -
    have "0 < c1 ^ 3" using c(1) by simp
    then have "t \<le> 1 / c1 ^ 3 \<longleftrightarrow> c1 ^ 3 * D \<le> p"
      using p0 by (simp add: t_def field_simps)
    with p1 show ?thesis by simp
  qed
  have "1 / 2 \<le> 1 / c2 ^ 3"
    using c(3,5) by (simp add: field_simps)
  with t1 have thalf: "1 / 2 \<le> t" by linarith
  have "1 / c1 ^ 3 \<le> 2"
    using c(1,4) by (simp add: field_simps)
  with t2 have ttwo: "t \<le> 2" by linarith
  have "1 / 2 ^ 1022 \<le> (1::real) / 2" "(2::real) \<le> 2 ^ 1023"
    by simp_all
  with thalf ttwo have "1 / 2 ^ 1022 \<le> t" "t \<le> 2 ^ 1023"
    by linarith+
  from fl_rel [OF this] obtain q where q: "fl t = Num q" "c1 * t \<le> q" "q \<le> c2 * t"
    unfolding c1_def c2_def by blast
  have cs: "cosineSimilarity v v = Num q"
    using p0 q(1) by (simp add: cosineSimilarity_def D m p(1) t_def)
  have "q \<le> c2 * (1 / c1 ^ 3)"
    using q(3) t2 c(3) by (smt (verit) mult_left_mono)
  also have "\<dots> \<le> 1 + 1 / 2 ^ 50"
    using num1 by (simp add: c1_def c2_def)
  finally have up: "q \<le> 1 + 1 / 2 ^ 50" .
  have "1 - 1 / 2 ^ 50 \<le> c1 * (1 / c2 ^ 3)"
    using num2 by (simp add: c1_def c2_def)
  also have "\<dots> \<le> c1 * t"
    using t1 c(1) by (intro mult_left_mono) simp_all
  finally have "1 - 1 / 2 ^ 50 \<le> q"
    using q(2) by linarith
  with up have "\<bar>q - 1\<bar> \<le> 1 / 2 ^ 50"
    by linarith
  with cs show ?thesis by blast
qed
text \<open>The computed sum of squares of a vector whose nonzero components are neither
  very small nor very large is in the normal range.\<close>

lemma one_minus_u_pow:
  assumes "k \<le> 2 ^ 20"
  shows "(1::real) / 2 \<le> (1 - 1 / 2 ^ 53) ^ k" and "((1::real) - 1 / 2 ^ 53) ^ k \<le> 1"
proof -
  define u where "u = (1::real) / 2 ^ 53"
  have u: "0 < u" "u < 1" "2 ^ 20 * u \<le> 1 / 2"
    by (simp_all add: u_def)
  have "- 1 \<le> - u" using u by simp
  from Bernoulli_inequality [OF this, of k] have "1 - real k * u \<le> (1 - u) ^ k"
    by simp
  moreover have "real k * u \<le> 2 ^ 20 * u"
    using assms u(1) by (intro mult_right_mono) (simp_all add: numeral_power_le_of_nat_cancel_iff of_nat_le_iff [symmetric] del: of_nat_le_iff)
  ultimately show "(1::real) / 2 \<le> (1 - 1 / 2 ^ 53) ^ k"
    using u(3) unfolding u_def by linarith
  show "((1::real) - 1 / 2 ^ 53) ^ k \<le> 1"
    by (intro power_le_one) simp_all
qed

lemma square_range:
  assumes "x = 0 \<or> (1 / 2 ^ 500 \<le> \<bar>x\<bar> \<and> \<bar>x\<bar> \<le> 2 ^ 500)"
  shows "\<exists>p. js_mul (Num x) (Num x) = Num p
           \<and> (if x = 0 then p = 0 else 1 / 2 ^ 1001 \<le> p \<and> p \<le> 2 ^ 1001)"
proof (cases "x = 0")
  case True
  then show ?thesis by simp
next
  case False
  with assms have r: "1 / 2 ^ 500 \<le> \<bar>x\<bar>" "\<bar>x\<bar> \<le> 2 ^ 500"
    by simp_all
  define y where "y = x * x"
  have y: "y = \<bar>x\<bar> * \<bar>x\<bar>"
    by (simp add: y_def)
  have "1 / 2 ^ 500 * (1 / 2 ^ 500) \<le> \<bar>x\<bar> * \<bar>x\<bar>"
    using r(1) by (intro mult_mono) simp_all
  then have lo: "1 / 2 ^ 1000 \<le> y"
    unfolding y by (simp flip: power_add)
  have "\<bar>x\<bar> * \<bar>x\<bar> \<le> 2 ^ 500 * 2 ^ 500"
    using r(2) by (intro mult_mono) simp_all
  then have hi: "y \<le> 2 ^ 1000"
    unfolding y by (simp flip: power_add)
  have "(1::real) / 2 ^ 1022 \<le> 1 / 2 ^ 1000" "(2::real) ^ 1000 \<le> 2 ^ 1023"
    by simp_all
  with lo hi have "1 / 2 ^ 1022 \<le> y" "y \<le> 2 ^ 1023"
    by linarith+
  from fl_rel [OF this] obtain p where p: "fl y = Num p"
    "(1 - 1 / 2 ^ 53) * y \<le> p" "p \<le> (1 + 1 / 2 ^ 53) * y"
    by blast
  define lo1 where "lo1 = (1::real) / 2 ^ 1000"
  define hi1 where "hi1 = (2::real) ^ 1000"
  have c: "(1::real) / 2 ^ 1001 = lo1 / 2" "(2::real) ^ 1001 = 2 * hi1" "0 < lo1" "0 < hi1"
    by (simp_all add: lo1_def hi1_def)
  have "0 < y" using lo by (simp add: less_le_trans [OF _ lo])
  have "(1 - 1 / 2 ^ 53) * y \<ge> (1 / 2) * y"
    using \<open>0 < y\<close> by (intro mult_right_mono) simp_all
  with p(2) lo have "lo1 / 2 \<le> p"
    unfolding lo1_def [symmetric] by linarith
  then have a: "1 / 2 ^ 1001 \<le> p"
    by (simp only: c(1))
  have "(1 + 1 / 2 ^ 53) * y \<le> 2 * y"
    using \<open>0 < y\<close> by (intro mult_right_mono) simp_all
  with p(3) hi have "p \<le> 2 * hi1"
    unfolding hi1_def [symmetric] by linarith
  then have b: "p \<le> 2 ^ 1001"
    by (simp only: c(2))
  from p(1) have "js_mul (Num x) (Num x) = Num p"
    by (simp only: js_mul.simps y_def)
  with False a b show ?thesis
    by (intro exI [of _ p] conjI) (simp_all only: if_False)
qed

lemma add_range:
  fixes B lo u :: real
  assumes B: "B = 2 ^ 1002" and u: "u = 1 / 2 ^ 53"
      and s: "0 \<le> s" "s \<le> real k * B" "s = 0 \<or> lo \<le> s"
      and p: "0 \<le> p" "p \<le> B / 2" "p = 0 \<or> lo \<le> p"
      and lo: "1 / 2 ^ 1021 \<le> lo"
      and k: "k < 2 ^ 20"
  shows "\<exists>t. js_add (Num s) (Num p) = Num t \<and> 0 \<le> t \<and> t \<le> real (Suc k) * B
           \<and> (s = 0 \<and> p = 0 \<and> t = 0 \<or> (1 - u) * lo \<le> t)"
proof (cases "s + p = 0")
  case True
  with s(1) p(1) have "s = 0" "p = 0"
    by linarith+
  moreover have "0 \<le> B"
    by (simp add: B)
  ultimately show ?thesis
    by simp
next
  case False
  with s p have l: "lo \<le> s + p"
    by linarith
  have Bp: "0 < B" "2 ^ 20 * B \<le> 2 ^ 1023"
    by (simp_all add: B)
  have up: "0 < u" "u * 2 ^ 20 \<le> 1 / 2" "u < 1"
    by (simp_all add: u)
  have kr: "real k + 1 \<le> 2 ^ 20"
    using k by (simp add: of_nat_less_numeral_power_cancel_iff Suc_le_eq [symmetric] of_nat_Suc [symmetric] del: of_nat_Suc)
  have "real k * B + B / 2 \<le> (real k + 1) * B"
    using Bp(1) by (simp add: algebra_simps)
  also have "\<dots> \<le> 2 ^ 20 * B"
    using kr Bp(1) by (intro mult_right_mono) simp_all
  finally have h: "s + p \<le> 2 ^ 20 * B"
    using s(2) p(2) by linarith
  have "(1::real) / 2 ^ 1022 \<le> 1 / 2 ^ 1021"
    by simp
  with lo l have "1 / 2 ^ 1022 \<le> s + p"
    by linarith
  moreover from h Bp(2) have "s + p \<le> 2 ^ 1023"
    by linarith
  ultimately obtain t where t: "fl (s + p) = Num t"
    "(1 - 1 / 2 ^ 53) * (s + p) \<le> t" "t \<le> (1 + 1 / 2 ^ 53) * (s + p)"
    using fl_rel by blast
  from t(2,3) have t': "(1 - u) * (s + p) \<le> t" "t \<le> (1 + u) * (s + p)"
    by (simp_all only: u)
  have "(0::real) < 1 / 2 ^ 1021"
    by simp
  with lo have lp: "0 < lo"
    by linarith
  have "(1 - u) * lo \<le> (1 - u) * (s + p)"
    using l up(3) by (intro mult_left_mono) simp_all
  with t'(1) have lower: "(1 - u) * lo \<le> t"
    by linarith
  have "0 < (1 - u) * lo"
    using lp up(3) by simp
  with lower have t0: "0 \<le> t"
    by linarith
  have sp: "s + p \<le> real k * B + B / 2"
    using s(2) p(2) by linarith
  have "(1 + u) * (s + p) \<le> (1 + u) * (real k * B + B / 2)"
    using sp up(1) by (intro mult_left_mono) simp_all
  also have "\<dots> = real k * B + B / 2 + u * (real k + 1 / 2) * B"
    by (simp add: algebra_simps)
  also have "u * (real k + 1 / 2) * B \<le> 1 / 2 * B"
  proof (intro mult_right_mono)
    have "u * (real k + 1 / 2) \<le> u * 2 ^ 20"
      using kr up(1) by (intro mult_left_mono) simp_all
    with up(2) show "u * (real k + 1 / 2) \<le> 1 / 2"
      by linarith
    show "0 \<le> B"
      using Bp(1) by simp
  qed
  finally have "(1 + u) * (s + p) \<le> real (Suc k) * B"
    by (simp add: algebra_simps)
  with t'(2) have upper: "t \<le> real (Suc k) * B"
    by linarith
  from t(1) have "js_add (Num s) (Num p) = Num t"
    by simp
  with t0 upper lower show ?thesis
    by blast
qed

lemma reduce_squares_range:
  fixes B L u :: real
  assumes B: "B = 2 ^ 1002" and u: "u = 1 / 2 ^ 53" and L: "L = 1 / 2 ^ 1001"
      and xs: "\<forall>x\<in>set xs. x = 0 \<or> (1 / 2 ^ 500 \<le> \<bar>x\<bar> \<and> \<bar>x\<bar> \<le> 2 ^ 500)"
      and n: "k + length xs \<le> 2 ^ 20"
      and s: "0 \<le> s" "s \<le> real k * B" "s = 0 \<or> L * (1 - u) ^ k \<le> s"
  shows "\<exists>D. reduce (\<lambda>sum a_i i. js_add sum (js_mul (Num a_i) (Num a_i))) xs i (Num s) = Num D
           \<and> 0 \<le> D \<and> D \<le> real (k + length xs) * B
           \<and> (s \<noteq> 0 \<or> (\<exists>x\<in>set xs. x \<noteq> 0) \<longrightarrow> L * (1 - u) ^ (k + length xs) \<le> D)"
  using xs n s
proof (induction xs arbitrary: k s i)
  case Nil
  then show ?case
    by auto
next
  case (Cons x xs)
  from Cons.prems(1) have x: "x = 0 \<or> (1 / 2 ^ 500 \<le> \<bar>x\<bar> \<and> \<bar>x\<bar> \<le> 2 ^ 500)"
    and xs: "\<forall>x\<in>set xs. x = 0 \<or> (1 / 2 ^ 500 \<le> \<bar>x\<bar> \<and> \<bar>x\<bar> \<le> 2 ^ 500)"
    by simp_all
  from Cons.prems(2) have k: "k < 2 ^ 20" and n: "Suc k + length xs \<le> 2 ^ 20"
    by simp_all
  from square_range [OF x] obtain p where p: "js_mul (Num x) (Num x) = Num p"
    "if x = 0 then p = 0 else 1 / 2 ^ 1001 \<le> p \<and> p \<le> 2 ^ 1001"
    by blast
  define lo where "lo = L * (1 - u) ^ k"
  have pw: "1 / 2 \<le> (1 - u) ^ k" "(1 - u) ^ k \<le> 1"
    using one_minus_u_pow [of k] k unfolding u by simp_all
  have Lp: "0 < L" "1 / 2 ^ 1021 \<le> L / 2"
    by (simp_all add: L)
  have "L * (1 / 2) \<le> L * (1 - u) ^ k"
    using pw(1) Lp(1) by (intro mult_left_mono) simp_all
  with Lp(2) have lo1: "1 / 2 ^ 1021 \<le> lo"
    unfolding lo_def by linarith
  have "L * (1 - u) ^ k \<le> L * 1"
    using pw(2) Lp(1) by (intro mult_left_mono) simp_all
  then have lo2: "lo \<le> L"
    by (simp add: lo_def)
  have BL: "2 ^ 1001 = B / 2" "1 / 2 ^ 1001 = L"
    by (simp_all add: B L)
  have Bp: "0 < B"
    by (simp add: B)
  from p(2) have "if x = 0 then p = 0 else L \<le> p \<and> p \<le> 2 ^ 1001"
    unfolding BL(2) .
  then have p2: "if x = 0 then p = 0 else L \<le> p \<and> p \<le> B / 2"
    unfolding BL(1) .
  have p0: "0 \<le> p" "p \<le> B / 2" "p = 0 \<or> lo \<le> p" "x = 0 \<longleftrightarrow> p = 0"
    using p2 lo2 Lp(1) Bp by (auto split: if_splits)
  from Cons.prems(5) have s3: "s = 0 \<or> lo \<le> s"
    by (simp add: lo_def)
  from add_range [OF B u Cons.prems(3,4) s3 p0(1,2,3) lo1 k]
  obtain t where t: "js_add (Num s) (Num p) = Num t" "0 \<le> t" "t \<le> real (Suc k) * B"
    "s = 0 \<and> p = 0 \<and> t = 0 \<or> (1 - u) * lo \<le> t"
    by blast
  have lo3: "(1 - u) * lo = L * (1 - u) ^ Suc k"
    by (simp add: lo_def)
  from t(4) have t4: "t = 0 \<or> L * (1 - u) ^ Suc k \<le> t"
    unfolding lo3 by blast
  from Cons.IH [OF xs n t(2,3) t4, of "Suc i"]
  obtain D where D: "reduce (\<lambda>sum a_i i. js_add sum (js_mul (Num a_i) (Num a_i))) xs (Suc i) (Num t) = Num D"
    "0 \<le> D" "D \<le> real (Suc k + length xs) * B"
    "t \<noteq> 0 \<or> (\<exists>x\<in>set xs. x \<noteq> 0) \<longrightarrow> L * (1 - u) ^ (Suc k + length xs) \<le> D"
    by blast
  have lp: "0 < (1 - u) * lo"
    using lo1 unfolding u by (intro mult_pos_pos) (simp, smt (verit) zero_less_divide_1_iff zero_less_numeral zero_less_power)
  have i: "t \<noteq> 0 \<or> (\<exists>x\<in>set xs. x \<noteq> 0)" if "s \<noteq> 0 \<or> (\<exists>y\<in>set (x # xs). y \<noteq> 0)"
    using that t(4) p0(4) lp by auto
  have r: "reduce (\<lambda>sum a_i i. js_add sum (js_mul (Num a_i) (Num a_i))) (x # xs) i (Num s) = Num D"
    using D(1) by (simp only: reduce.simps p(1) t(1))
  have c: "k + length (x # xs) = Suc k + length xs"
    by simp
  show ?case
    unfolding c using r D(2,3,4) i by blast
qed

lemma sum_squares_range:
  assumes "nonzero v" and "length v \<le> 2 ^ 20"
      and "\<forall>x\<in>set v. x = 0 \<or> (1 / 2 ^ 500 \<le> \<bar>x\<bar> \<and> \<bar>x\<bar> \<le> 2 ^ 500)"
  shows "\<exists>D. dotProduct v v = Num D \<and> 1 / 2 ^ 1021 \<le> D \<and> D \<le> 2 ^ 1022"
proof -
  define B where "B = (2::real) ^ 1002"
  define u where "u = (1::real) / 2 ^ 53"
  define L where "L = (1::real) / 2 ^ 1001"
  have n: "0 + length v \<le> 2 ^ 20"
    using assms(2) by simp
  have "\<exists>x\<in>set v. x \<noteq> 0"
    using assms(1) by (simp add: nonzero_def list_ex_iff)
  with reduce_squares_range [OF B_def u_def L_def assms(3) n, of 0 0]
  obtain D where D: "reduce (\<lambda>sum a_i i. js_add sum (js_mul (Num a_i) (Num a_i))) v 0 (Num 0) = Num D"
    "D \<le> real (length v) * B" "L * (1 - u) ^ length v \<le> D"
    by auto
  have "dotProduct v v = reduce (\<lambda>sum a_i i. js_add sum (js_mul (Num a_i) (Num a_i))) v 0 (Num 0)"
    using reduce_self [of "[]" v "Num 0"] by (simp add: dotProduct_def)
  with D(1) have d: "dotProduct v v = Num D"
    by simp
  have Bp: "0 < B" "2 ^ 20 * B = 2 ^ 1022"
    by (simp_all add: B_def)
  have "real (length v) \<le> 2 ^ 20"
    using assms(2) by (simp add: of_nat_le_numeral_power_cancel_iff)
  then have "real (length v) * B \<le> 2 ^ 20 * B"
    using Bp(1) by (intro mult_right_mono) simp_all
  with D(2) Bp(2) have hi: "D \<le> 2 ^ 1022"
    by linarith
  have Lp: "0 < L" "1 / 2 ^ 1021 \<le> L * (1 / 2)"
    by (simp_all add: L_def)
  have "1 / 2 \<le> (1 - u) ^ length v"
    using one_minus_u_pow(1) [OF assms(2)] by (simp add: u_def)
  then have "L * (1 / 2) \<le> L * (1 - u) ^ length v"
    using Lp(1) by (intro mult_left_mono) simp_all
  with D(3) Lp(2) have lo: "1 / 2 ^ 1021 \<le> D"
    by linarith
  from d lo hi show ?thesis
    by blast
qed

lemma self_similarity_in_range:
  assumes "nonzero v" and "length v \<le> 2 ^ 20"
      and "\<forall>x\<in>set v. x = 0 \<or> (1 / 2 ^ 500 \<le> \<bar>x\<bar> \<and> \<bar>x\<bar> \<le> 2 ^ 500)"
  shows "\<exists>q. cosineSimilarity v v = Num q \<and> \<bar>q - 1\<bar> \<le> 1 / 2 ^ 50"
  using sum_squares_range [OF assms] self_similarity_close by blast

lemma num3: "2 * (1 / 2 ^ 53) / (1 - 1 / 2 ^ 53) \<le> (1::real) / 2 ^ 51"
  by (simp add: field_simps)

lemma formula_close:
  assumes d: "dotProduct a b = Num (spec_dot a b)"
      and ma: "magnitude a = Num (spec_norm a)" and mb: "magnitude b = Num (spec_norm b)"
      and Plo: "1 / 2 ^ 1022 \<le> spec_norm a * spec_norm b"
      and Phi: "spec_norm a * spec_norm b \<le> 2 ^ 1023"
      and clo: "1 / 2 ^ 1021 \<le> \<bar>spec_cosine a b\<bar>" and chi: "\<bar>spec_cosine a b\<bar> \<le> 2 ^ 1022"
  shows "\<exists>q. cosineSimilarity a b = Num q
           \<and> \<bar>q - spec_cosine a b\<bar> \<le> \<bar>spec_cosine a b\<bar> / 2 ^ 51"
proof -
  define u where "u = (1::real) / 2 ^ 53"
  have u: "0 < u" "u \<le> 1 / 2" "2 * u / (1 - u) \<le> 1 / 2 ^ 51"
    using num3 by (simp_all add: u_def)
  define P where "P = spec_norm a * spec_norm b"
  define c where "c = spec_cosine a b"
  have "(0::real) < 1 / 2 ^ 1022" by simp
  with Plo have P0: "0 < P" unfolding P_def by linarith
  from fl_rel [OF Plo Phi] obtain p where p: "fl P = Num p" "(1 - u) * P \<le> p" "p \<le> (1 + u) * P"
    unfolding u_def P_def by blast
  have p0: "0 < p"
  proof -
    have "0 < (1 - u) * P" using u P0 by simp
    with p(2) show ?thesis by linarith
  qed
  define t where "t = spec_dot a b / p"
  have "c * P = spec_dot a b / P * P"
    by (simp add: c_def spec_cosine_def P_def)
  also have "\<dots> = spec_dot a b"
    using P0 by simp
  finally have cP: "spec_dot a b = c * P" by simp
  have t: "t = c * (P / p)"
    by (simp add: t_def cP)
  have r1: "P / p \<le> 1 / (1 - u)"
  proof -
    have "0 < 1 - u" using u by simp
    then show ?thesis using p(2) p0 by (simp add: field_simps)
  qed
  have r2: "1 / (1 + u) \<le> P / p"
  proof -
    have "0 < 1 + u" using u by simp
    then show ?thesis using p(3) p0 by (simp add: field_simps)
  qed
  have r0: "0 < P / p" using P0 p0 by simp
  have at: "\<bar>t\<bar> = \<bar>c\<bar> * (P / p)"
    using P0 p0 by (simp add: t abs_mult)
  have "1 / 2 \<le> 1 / (1 + u)" using u by (simp add: field_simps)
  with r2 have rh: "1 / 2 \<le> P / p" by linarith
  have "1 / (1 - u) \<le> 2" using u by (simp add: field_simps)
  with r1 have rt: "P / p \<le> 2" by linarith
  have "1 / 2 ^ 1022 = 1 / (2::real) ^ 1021 * (1 / 2)" by simp
  also have "\<dots> \<le> \<bar>c\<bar> * (P / p)"
    using clo rh unfolding c_def by (intro mult_mono) simp_all
  finally have tlo: "1 / 2 ^ 1022 \<le> \<bar>t\<bar>" by (simp add: at)
  have "\<bar>c\<bar> * (P / p) \<le> 2 ^ 1022 * 2"
    using chi rt r0 unfolding c_def by (intro mult_mono) simp_all
  then have thi: "\<bar>t\<bar> \<le> 2 ^ 1023" by (simp add: at)
  from fl_err [OF tlo thi] obtain q where q: "fl t = Num q" "\<bar>q - t\<bar> \<le> \<bar>t\<bar> / 2 ^ 53"
    by blast
  have cs: "cosineSimilarity a b = Num q"
    using p0 q(1) p(1) by (simp add: cosineSimilarity_def d ma mb t_def P_def)
  have e1: "\<bar>q - t\<bar> \<le> \<bar>c\<bar> * (u / (1 - u))"
  proof -
    have qt: "\<bar>q - t\<bar> \<le> \<bar>t\<bar> * u"
      using q(2) by (simp add: u_def)
    have "\<bar>t\<bar> * u = \<bar>c\<bar> * (P / p) * u"
      by (simp add: at)
    also have "\<dots> \<le> \<bar>c\<bar> * (1 / (1 - u)) * u"
      using r1 u by (intro mult_right_mono mult_left_mono) simp_all
    also have "\<dots> = \<bar>c\<bar> * (u / (1 - u))"
      by simp
    finally show ?thesis using qt by linarith
  qed
  have e2: "\<bar>t - c\<bar> \<le> \<bar>c\<bar> * (u / (1 - u))"
  proof -
    have "t - c = c * (P / p - 1)"
      by (simp add: t algebra_simps)
    then have tc: "\<bar>t - c\<bar> = \<bar>c\<bar> * \<bar>P / p - 1\<bar>"
      by (simp add: abs_mult)
    have "\<bar>P / p - 1\<bar> \<le> u / (1 - u)"
    proof -
      have "1 / (1 - u) - 1 = u / (1 - u)"
        using u by (simp add: field_simps)
      moreover have "1 - u / (1 - u) \<le> 1 / (1 + u)"
        using u by (simp add: field_simps)
      ultimately show ?thesis
        using r1 r2 by (simp add: abs_le_iff)
    qed
    then have "\<bar>c\<bar> * \<bar>P / p - 1\<bar> \<le> \<bar>c\<bar> * (u / (1 - u))"
      by (intro mult_left_mono) simp_all
    with tc show ?thesis by simp
  qed
  define w where "w = u / (1 - u)"
  have w: "2 * w \<le> 1 / 2 ^ 51"
    using u(3) by (simp add: w_def)
  have "\<bar>q - c\<bar> \<le> \<bar>q - t\<bar> + \<bar>t - c\<bar>" by linarith
  also have "\<dots> \<le> \<bar>c\<bar> * w + \<bar>c\<bar> * w"
    using e1 e2 unfolding w_def by linarith
  also have "\<dots> = \<bar>c\<bar> * (2 * w)"
    by simp
  also have "\<dots> \<le> \<bar>c\<bar> * (1 / 2 ^ 51)"
    using w by (intro mult_left_mono) simp_all
  finally have "\<bar>q - c\<bar> \<le> \<bar>c\<bar> / 2 ^ 51" by simp
  with cs show ?thesis unfolding c_def by blast
qed
lemma cos_huge: "cosineSimilarity [2 ^ 600] [2 ^ 600] = NaN"
proof -
  have "fl (2 ^ 600 * 2 ^ 600) = PosInf"
    by (rule fl_overflow) simp
  then show ?thesis
    by (simp add: cosineSimilarity_def dotProduct_def magnitude_def at_index_def scale_inf_def)
qed

lemma cos_tiny: "cosineSimilarity [1 / 2 ^ 600] [1 / 2 ^ 600] = NaN"
proof -
  have "fl (1 / 2 ^ 600 * (1 / 2 ^ 600)) = Num 0"
    by (rule fl_underflow) simp
  then show ?thesis
    by (simp add: cosineSimilarity_def dotProduct_def magnitude_def at_index_def)
qed




section \<open>Undefined scores\<close>

lemma nonzero_iff: "nonzero v \<longleftrightarrow> (\<exists>x\<in>set v. x \<noteq> 0)"
  by (simp add: nonzero_def list_ex_iff)

lemma fl_nonneg: "0 \<le> x \<Longrightarrow> nonneg_or_inf (fl x)"
  using rnd_nonneg [of x] by (simp add: fl_rnd)

lemma js_add_nonneg: "nonneg_or_inf s \<Longrightarrow> nonneg_or_inf t \<Longrightarrow> nonneg_or_inf (js_add s t)"
  by (cases s; cases t) (simp_all add: fl_nonneg)

lemma reduce_squares_nonneg:
  "nonneg_or_inf acc \<Longrightarrow>
   nonneg_or_inf (reduce (\<lambda>sum a_i i. js_add sum (js_mul (Num a_i) (Num a_i))) a i acc)"
  by (induction a arbitrary: i acc) (simp_all add: js_add_nonneg fl_nonneg)

lemma magnitude_nonneg: "nonneg_or_inf (magnitude a)"
proof -
  let ?s = "reduce (\<lambda>sum a_i i. js_add sum (js_mul (Num a_i) (Num a_i))) a 0 (Num 0)"
  have "nonneg_or_inf ?s"
    by (rule reduce_squares_nonneg) simp
  then have "nonneg_or_inf (js_sqrt ?s)"
    by (cases ?s) (simp_all add: fl_nonneg)
  then show ?thesis
    by (simp add: magnitude_def)
qed

lemma reduce_squares_zero:
  "\<forall>x\<in>set a. x = 0 \<Longrightarrow>
   reduce (\<lambda>sum a_i i. js_add sum (js_mul (Num a_i) (Num a_i))) a i (Num 0) = Num 0"
  by (induction a arbitrary: i) simp_all

lemma magnitude_zero:
  assumes "\<not> nonzero a"
  shows "magnitude a = Num 0"
proof -
  have "reduce (\<lambda>sum a_i i. js_add sum (js_mul (Num a_i) (Num a_i))) a 0 (Num 0) = Num 0"
    using assms by (intro reduce_squares_zero) (simp add: nonzero_iff)
  then have "magnitude a = js_sqrt (Num 0)"
    by (simp only: magnitude_def)
  then show ?thesis by simp
qed

lemma reduce_dot_zero:
  assumes "(\<forall>x\<in>set a. x = 0) \<or> (\<forall>y\<in>set b. y = 0)" and "zero_or_nan acc"
  shows "zero_or_nan (reduce (\<lambda>sum a_i i. js_add sum (js_mul (Num a_i) (at_index b i))) a i acc)"
  using assms
proof (induction a arbitrary: i acc)
  case Nil
  then show ?case by simp
next
  case (Cons x a)
  have "zero_or_nan (js_mul (Num x) (at_index b i))"
  proof (cases "i < length b")
    case True
    then have "b ! i \<in> set b" by simp
    with Cons.prems(1) have "x * b ! i = 0" by auto
    then have "fl (x * b ! i) = Num 0" by (simp only: fl_zero)
    with True show ?thesis by (simp add: at_index_def)
  next
    case False
    then show ?thesis by (simp add: at_index_def)
  qed
  with Cons.prems(2) have z: "zero_or_nan (js_add acc (js_mul (Num x) (at_index b i)))"
    by (cases acc; cases "js_mul (Num x) (at_index b i)") simp_all
  from Cons.prems(1) have "(\<forall>x\<in>set a. x = 0) \<or> (\<forall>y\<in>set b. y = 0)"
    by auto
  from Cons.IH [OF this z] show ?case
    by simp
qed

lemma dotProduct_zero:
  "\<not> nonzero a \<or> \<not> nonzero b \<Longrightarrow> zero_or_nan (dotProduct a b)"
  unfolding dotProduct_def by (rule reduce_dot_zero) (auto simp: nonzero_iff)

lemma zero_vector_NaN:
  assumes "\<not> nonzero a \<or> \<not> nonzero b"
  shows "zero_or_nan (js_mul (magnitude a) (magnitude b))"
    and "cosineSimilarity a b = NaN"
proof -
  show z: "zero_or_nan (js_mul (magnitude a) (magnitude b))"
    using assms magnitude_nonneg [of a] magnitude_nonneg [of b]
    by (cases "magnitude a"; cases "magnitude b")
       (auto simp: magnitude_zero scale_inf_def)
  from dotProduct_zero [OF assms] z show "cosineSimilarity a b = NaN"
    unfolding cosineSimilarity_def
    by (cases "dotProduct a b"; cases "js_mul (magnitude a) (magnitude b)") simp_all
qed

lemma set_insert_sorted: "set (insert_sorted cmp x ys) = insert x (set ys)"
  by (induction ys) auto

lemma set_js_sort: "set (js_sort cmp xs) = set xs"
  by (induction xs) (simp_all add: js_sort_def set_insert_sorted)

lemma fl_pow_neg:
  assumes "n \<le> 1074"
  shows "fl (1 / 2 ^ n) = Num (1 / 2 ^ n)"
proof -
  have "(2::real) powi (- int n) = 1 / 2 ^ n"
    by (simp add: power_int_minus field_simps)
  with fl_dyadic [of 1 "- int n"] assms show ?thesis
    by simp
qed

lemma tiny_small:
  "fl (tiny * small) = Num (tiny * small)" "fl (tiny * tiny) = Num 0"
  "fl (small * small) = Num (small * small)" "fl small = Num small"
  "0 < tiny" "0 < small"
proof -
  have "tiny * small = 1 / 2 ^ 1060"
    by (simp add: tiny_def small_def)
  moreover have "fl (1 / 2 ^ 1060) = Num (1 / 2 ^ 1060)"
    by (rule fl_pow_neg) simp
  ultimately show "fl (tiny * small) = Num (tiny * small)"
    by (simp only:)
  show "fl (tiny * tiny) = Num 0"
    by (rule fl_underflow) (simp add: tiny_def)
  have "small * small = 1 / 2 ^ 1000"
    by (simp add: small_def)
  moreover have "fl (1 / 2 ^ 1000) = Num (1 / 2 ^ 1000)"
    by (rule fl_pow_neg) simp
  ultimately show "fl (small * small) = Num (small * small)"
    by (simp only:)
  show "fl small = Num small"
    unfolding small_def by (rule fl_pow_neg) simp
  show "0 < tiny" "0 < small"
    by (simp_all add: tiny_def small_def)
qed

lemma cos_small: "cosineSimilarity [tiny] [small] = PosInf"
  using tiny_small(5,6)
  by (simp add: cosineSimilarity_def dotProduct_def magnitude_def at_index_def tiny_small(1-4))




end
